theory Spec2Isabelle
  imports Main "HOL-Library.Sublist" "HOL-Library.AList"
begin

section \<open>Python strings\<close>

text \<open>
  A Python \<^verbatim>\<open>str\<close> is a sequence of Unicode code points, so a string of the model is a
  list of code points, each a natural number. \<open>py\<close> turns an ASCII literal of this file
  into such a string.
\<close>

type_synonym codepoint = nat
type_synonym str = "codepoint list"

definition py :: "string \<Rightarrow> str" where
  "py s = map of_char s"

text \<open>
  \<^verbatim>\<open>str.isspace\<close> for one character: the code points that \<^verbatim>\<open>str.strip()\<close> without
  argument removes (CPython's \<^verbatim>\<open>Py_UNICODE_ISSPACE\<close>).
\<close>

definition is_space :: "codepoint \<Rightarrow> bool" where
  "is_space c \<longleftrightarrow>
     (9 \<le> c \<and> c \<le> 13) \<or> (28 \<le> c \<and> c \<le> 32) \<or> c = 133 \<or> c = 160 \<or> c = 5760 \<or>
     (8192 \<le> c \<and> c \<le> 8202) \<or> c = 8232 \<or> c = 8233 \<or> c = 8239 \<or> c = 8287 \<or> c = 12288"

definition lstrip :: "str \<Rightarrow> str" where
  "lstrip s = dropWhile is_space s"

definition rstrip :: "str \<Rightarrow> str" where
  "rstrip s = rev (dropWhile is_space (rev s))"

text \<open>\<^verbatim>\<open>s.strip()\<close>\<close>

definition strip :: "str \<Rightarrow> str" where
  "strip s = lstrip (rstrip s)"

text \<open>
  \<^verbatim>\<open>s.replace(old, new)\<close>: every occurrence of \<open>old\<close>, found from the left and not
  overlapping, becomes \<open>new\<close>. With an empty \<open>old\<close> Python puts \<open>new\<close> before every
  character and at the end.
\<close>

function replace :: "str \<Rightarrow> str \<Rightarrow> str \<Rightarrow> str" where
  "replace old new s =
     (if old = [] then new @ concat (map (\<lambda>c. c # new) s)
      else if s = [] then []
      else if prefix old s then new @ replace old new (drop (length old) s)
      else hd s # replace old new (tl s))"
  by pat_completeness auto
termination
  by (relation "measure (\<lambda>(old, new, s). length s)") auto

declare replace.simps [simp del]

text \<open>\<^verbatim>\<open>s.split(sep)\<close> for a separator of one character; the empty string gives \<^verbatim>\<open>['']\<close>.\<close>

fun split_str :: "codepoint \<Rightarrow> str \<Rightarrow> str list" where
  "split_str sep [] = [[]]"
| "split_str sep (c # cs) =
     (if c = sep then [] # split_str sep cs
      else (case split_str sep cs of
              [] \<Rightarrow> [[c]]
            | p # ps \<Rightarrow> (c # p) # ps))"

text \<open>\<^verbatim>\<open>sep.join(xs)\<close>\<close>

fun join :: "str \<Rightarrow> str list \<Rightarrow> str" where
  "join sep [] = []"
| "join sep [x] = x"
| "join sep (x # y # ys) = x @ sep @ join sep (y # ys)"

section \<open>The prompt of \<^verbatim>\<open>analyze_document_with_gemini\<close>\<close>

text \<open>
  The f-string of lines 45 to 64 of \<^verbatim>\<open>app.py\<close>, cut into the pieces the properties
  below speak about. Every line of the source is indented by four blanks, the string
  starts with the line break after the opening quotes, and \<^verbatim>\<open>{{\<close>, \<^verbatim>\<open>}}\<close> of the
  f-string are single braces.
\<close>

definition prompt_task :: str where
  \<open>prompt_task = py (''\<newline>    You are an expert document analysis AI. Your task is to analyze the provided image of a document and extract specific information.\<newline>''
     @ ''\<newline>''
     @ ''    **Instructions**:\<newline>''
     @ ''    1.  Carefully examine the document image.\<newline>''
     @ ''    2.  Extract the values for the following fields: **'')\<close>

definition instruction_3 :: str where
  \<open>instruction_3 = py ''Your response **MUST** be a single, valid JSON object.''\<close>

definition instruction_4 :: str where
  \<open>instruction_4 = py ''The keys of the JSON object must exactly match the field names provided in the list.''\<close>

definition sentinel :: str where
  \<open>sentinel = py ''"N/A"''\<close>

definition instruction_5 :: str where
  \<open>instruction_5 = py ''If a value for a field cannot be found in the document, the corresponding value in the JSON object should be '' @ sentinel @ py ''.''\<close>

definition example_fields :: str where
  \<open>example_fields = py ''**Example Request Fields**: ["Invoice Number", "Customer Name", "Total Amount"]''\<close>

text \<open>The example response, from its opening brace to its closing brace.\<close>

definition example_json :: str where
  \<open>example_json = py (''{\<newline>''
     @ ''      "Invoice Number": "INV-12345",\<newline>''
     @ ''      "Customer Name": "John Doe",\<newline>''
     @ ''      "Total Amount": "$999.99"\<newline>''
     @ ''    }'')\<close>

definition prompt_closing :: str where
  \<open>prompt_closing = py (''\<newline>''
     @ ''\<newline>''
     @ ''    Now, analyze the provided image and extract the data for the requested fields.\<newline>''
     @ ''    '')\<close>

definition prompt :: "str list \<Rightarrow> str" where
  \<open>prompt placeholders =
     (let placeholders_str = join (py '', '') placeholders
      in prompt_task @ placeholders_str @ py ''**\<newline>''
         @ py ''    3.  '' @ instruction_3 @ py ''\<newline>''
         @ py ''    4.  '' @ instruction_4 @ py ''\<newline>''
         @ py ''    5.  '' @ instruction_5 @ py ''\<newline>''
         @ py ''\<newline>''
         @ py ''    '' @ example_fields @ py ''\<newline>''
         @ py ''    **Example JSON Response**:\<newline>''
         @ py ''    '' @ example_json
         @ prompt_closing)\<close>

section \<open>Python values and exceptions\<close>

text \<open>
  The exceptions a run can meet. \<open>JSONDecodeError\<close> carries which message of Python's
  \<^verbatim>\<open>json\<close> module it has (the position in the text is left out); \<open>ValueError\<close> is the one
  \<^verbatim>\<open>int\<close> raises for more digits than it converts; \<open>External\<close> is an exception of pdf2image
  or of the Gemini client, with its text. \<open>NoProgress\<close> is no Python exception: it marks
  the branch of the scanner's loops that is shown below never to be taken.
\<close>

datatype json_error =
    Unterminated_string
  | Invalid_control_character
  | Invalid_escape
  | Invalid_uXXXX_escape
  | Expecting_value
  | Expecting_property_name
  | Expecting_colon_delimiter
  | Expecting_comma_delimiter
  | Extra_data
  | Unexpected_BOM

datatype exn =
    JSONDecodeError json_error
  | ValueError
  | RecursionError
  | AttributeError
  | External str
  | NoProgress

text \<open>
  The values \<^verbatim>\<open>json.loads\<close> returns. \<open>PNone\<close> is \<^verbatim>\<open>None\<close>, which is also what the helpers
  return on failure. A float is kept as the decimal number its text denotes:
  \<open>Finite neg m e\<close> is \<open>m\<close> times ten to the power \<open>e\<close>, negative when \<open>neg\<close>; rounding to
  a double is not modelled. A dict is the list of its items in insertion order, with
  distinct keys.
\<close>

datatype pyfloat = Finite bool nat int | Infinity bool | NaN

datatype pyval =
    PNone
  | PBool bool
  | PInt int
  | PFloat pyfloat
  | PStr str
  | PList "pyval list"
  | PDict "(str \<times> pyval) list"

text \<open>
  What \<^verbatim>\<open>if x:\<close> tests. A float is false when it is zero as a double: the decimal is zero,
  or so small that it rounds to zero, that is at most two to the power -1075.
\<close>

fun float_is_zero :: "pyfloat \<Rightarrow> bool" where
  "float_is_zero (Finite neg m e) \<longleftrightarrow> m = 0 \<or> (e < 0 \<and> m * 2 ^ 1075 \<le> 10 ^ nat (- e))"
| "float_is_zero (Infinity neg) \<longleftrightarrow> False"
| "float_is_zero NaN \<longleftrightarrow> False"

fun truthy :: "pyval \<Rightarrow> bool" where
  "truthy PNone \<longleftrightarrow> False"
| "truthy (PBool b) \<longleftrightarrow> b"
| "truthy (PInt i) \<longleftrightarrow> i \<noteq> 0"
| "truthy (PFloat f) \<longleftrightarrow> \<not> float_is_zero f"
| "truthy (PStr s) \<longleftrightarrow> s \<noteq> []"
| "truthy (PList xs) \<longleftrightarrow> xs \<noteq> []"
| "truthy (PDict kvs) \<longleftrightarrow> kvs \<noteq> []"

text \<open>\<^verbatim>\<open>dict(pairs)\<close>: a later pair with the same key replaces the value and keeps the place.\<close>

definition dict_of_pairs :: "(str \<times> pyval) list \<Rightarrow> (str \<times> pyval) list" where
  "dict_of_pairs pairs = foldl (\<lambda>d (k, v). AList.update k v d) [] pairs"

section \<open>json.loads\<close>

text \<open>
  Python's \<^verbatim>\<open>json.loads\<close> with its default arguments, after \<^verbatim>\<open>json/decoder.py\<close> and
  \<^verbatim>\<open>json/scanner.py\<close> of CPython 3.11, with the digits and hexadecimal digits of the
  accelerated scanner (ASCII only). A scanning function takes the text from its current
  position on and returns the value with the text that is left.
\<close>

definition json_ws :: "codepoint \<Rightarrow> bool" where
  "json_ws c \<longleftrightarrow> c = 32 \<or> c = 9 \<or> c = 10 \<or> c = 13"

definition skip_ws :: "str \<Rightarrow> str" where
  "skip_ws s = dropWhile json_ws s"

definition is_digit :: "codepoint \<Rightarrow> bool" where
  "is_digit c \<longleftrightarrow> 48 \<le> c \<and> c \<le> 57"

definition digits_value :: "str \<Rightarrow> nat" where
  "digits_value ds = foldl (\<lambda>a c. 10 * a + (c - 48)) 0 ds"

definition hex_digit :: "codepoint \<Rightarrow> nat option" where
  "hex_digit c =
     (if 48 \<le> c \<and> c \<le> 57 then Some (c - 48)
      else if 97 \<le> c \<and> c \<le> 102 then Some (c - 87)
      else if 65 \<le> c \<and> c \<le> 70 then Some (c - 55)
      else None)"

definition decode_uXXXX :: "str \<Rightarrow> nat option" where
  "decode_uXXXX s =
     (case map hex_digit (take 4 s) of
        [Some a, Some b, Some c, Some d] \<Rightarrow> Some (((a * 16 + b) * 16 + c) * 16 + d)
      | _ \<Rightarrow> None)"

definition backslash :: "codepoint \<Rightarrow> codepoint option" where
  "backslash esc =
     (if esc = 34 then Some 34
      else if esc = 92 then Some 92
      else if esc = 47 then Some 47
      else if esc = 98 then Some 8
      else if esc = 102 then Some 12
      else if esc = 110 then Some 10
      else if esc = 114 then Some 13
      else if esc = 116 then Some 9
      else None)"

text \<open>
  \<^verbatim>\<open>scanstring\<close> in strict mode, from the character after the opening quote: 34 is the
  quote, 92 the backslash, 117 the letter u. Two escapes that form a surrogate pair give
  one character. As in the accelerated scanner, the four digits of an escape must be
  followed by at least one more character, and a second escape is looked at only when
  at least one character follows it.
\<close>

function scanstring :: "str \<Rightarrow> str \<Rightarrow> exn + str \<times> str" where
  "scanstring chunks [] = Inl (JSONDecodeError Unterminated_string)"
| "scanstring chunks (c # cs) =
     (if c = 34 then Inr (rev chunks, cs)
      else if c = 92 then
        (case cs of
           [] \<Rightarrow> Inl (JSONDecodeError Unterminated_string)
         | esc # es \<Rightarrow>
             if esc \<noteq> 117 then
               (case backslash esc of
                  None \<Rightarrow> Inl (JSONDecodeError Invalid_escape)
                | Some char \<Rightarrow> scanstring (char # chunks) es)
             else if length es \<le> 4 then Inl (JSONDecodeError Invalid_uXXXX_escape)
             else
               (case decode_uXXXX es of
                  None \<Rightarrow> Inl (JSONDecodeError Invalid_uXXXX_escape)
                | Some uni \<Rightarrow>
                    if 0xd800 \<le> uni \<and> uni \<le> 0xdbff \<and> 10 < length es
                       \<and> take 2 (drop 4 es) = [92, 117] then
                      (case decode_uXXXX (drop 6 es) of
                         None \<Rightarrow> Inl (JSONDecodeError Invalid_uXXXX_escape)
                       | Some uni2 \<Rightarrow>
                           if 0xdc00 \<le> uni2 \<and> uni2 \<le> 0xdfff then
                             scanstring ((0x10000 + ((uni - 0xd800) * 1024 + (uni2 - 0xdc00))) # chunks)
                               (drop 10 es)
                           else scanstring (uni # chunks) (drop 4 es))
                    else scanstring (uni # chunks) (drop 4 es)))
      else if c < 32 then Inl (JSONDecodeError Invalid_control_character)
      else scanstring (c # chunks) cs)"
  by pat_completeness auto
termination
  by (relation "measure (\<lambda>(chunks, s). length s)") auto


text \<open>
  The regular expression of a number, \<^verbatim>\<open>(-?(?:0|[1-9]\d*))(\.\d+)?([eE][-+]?\d+)?\<close>: the
  sign and the digits of the integer part, the digits of the fraction if there is one,
  the sign and the digits of the exponent if there is one.
\<close>

type_synonym number_match = "bool \<times> str \<times> str option \<times> (bool \<times> str) option"

definition match_integer :: "str \<Rightarrow> (bool \<times> str \<times> str) option" where
  "match_integer s =
     (let (neg, s1) = (case s of c # cs \<Rightarrow> if c = 45 then (True, cs) else (False, s) | [] \<Rightarrow> (False, s))
      in case s1 of
           [] \<Rightarrow> None
         | d # ds \<Rightarrow>
             if \<not> is_digit d then None
             else if d = 48 then Some (neg, [d], ds)
             else Some (neg, d # takeWhile is_digit ds, dropWhile is_digit ds))"

definition match_frac :: "str \<Rightarrow> str option \<times> str" where
  "match_frac r =
     (case r of
        c # f # fs \<Rightarrow>
          if c = 46 \<and> is_digit f
          then (Some (takeWhile is_digit (f # fs)), dropWhile is_digit (f # fs))
          else (None, r)
      | _ \<Rightarrow> (None, r))"

definition match_exp :: "str \<Rightarrow> (bool \<times> str) option \<times> str" where
  "match_exp r =
     (case r of
        c # es \<Rightarrow>
          if c = 101 \<or> c = 69 then
            (let (eneg, ds) = (case es of
                                 x # xs \<Rightarrow> if x = 45 then (True, xs)
                                           else if x = 43 then (False, xs)
                                           else (False, es)
                               | [] \<Rightarrow> (False, es))
             in if ds \<noteq> [] \<and> is_digit (hd ds)
                then (Some (eneg, takeWhile is_digit ds), dropWhile is_digit ds)
                else (None, r))
          else (None, r)
      | [] \<Rightarrow> (None, r))"

definition match_number :: "str \<Rightarrow> (number_match \<times> str) option" where
  "match_number s =
     (case match_integer s of
        None \<Rightarrow> None
      | Some (neg, integer, r0) \<Rightarrow>
          (case match_frac r0 of
             (frac, r1) \<Rightarrow>
               (case match_exp r1 of
                  (exp, r2) \<Rightarrow> Some ((neg, integer, frac, exp), r2))))"

text \<open>
  \<^verbatim>\<open>int(integer)\<close> raises ValueError beyond \<^verbatim>\<open>sys.int_info.default_max_str_digits\<close> digits;
  a number with a fraction or an exponent becomes a float.
\<close>

definition max_str_digits :: nat where
  "max_str_digits = 4300"

definition number_value :: "number_match \<Rightarrow> exn + pyval" where
  "number_value m =
     (case m of (neg, integer, frac, exp) \<Rightarrow>
        if frac = None \<and> exp = None then
          (if length integer > max_str_digits then Inl ValueError
           else Inr (PInt (if neg then - int (digits_value integer) else int (digits_value integer))))
        else
          (let fs = (case frac of None \<Rightarrow> [] | Some ds \<Rightarrow> ds);
               e = (case exp of None \<Rightarrow> 0
                    | Some (eneg, ds) \<Rightarrow> if eneg then - int (digits_value ds) else int (digits_value ds))
           in Inr (PFloat (Finite neg (digits_value (integer @ fs)) (e - int (length fs))))))"

text \<open>
  \<^verbatim>\<open>JSONArray\<close> and \<^verbatim>\<open>JSONObject\<close>, from the character after the opening bracket or
  brace, with the scanner for the values inside as parameter. 93 is the closing bracket,
  44 the comma, 58 the colon, 125 the closing brace.
\<close>

type_synonym scanner = "str \<Rightarrow> exn + pyval \<times> str"

function array_items :: "scanner \<Rightarrow> pyval list \<Rightarrow> str \<Rightarrow> exn + pyval list \<times> str" where
  "array_items scan_once values s =
     (case scan_once s of
        Inl e \<Rightarrow> Inl e
      | Inr (value, rest) \<Rightarrow>
          (case skip_ws rest of
             [] \<Rightarrow> Inl (JSONDecodeError Expecting_comma_delimiter)
           | nextchar # cs \<Rightarrow>
               if nextchar = 93 then Inr (values @ [value], cs)
               else if nextchar \<noteq> 44 then Inl (JSONDecodeError Expecting_comma_delimiter)
               else if length cs < length s then array_items scan_once (values @ [value]) (skip_ws cs)
               else Inl NoProgress))"
  by pat_completeness auto
termination
  by (relation "measure (\<lambda>(scan_once, values, s). length s)")
     (auto simp: skip_ws_def intro: le_less_trans[OF length_dropWhile_le])

declare array_items.simps [simp del]

definition JSONArray :: "scanner \<Rightarrow> str \<Rightarrow> exn + pyval \<times> str" where
  "JSONArray scan_once s =
     (case skip_ws s of
        [] \<Rightarrow> Inl (JSONDecodeError Expecting_value)
      | nextchar # cs \<Rightarrow>
          if nextchar = 93 then Inr (PList [], cs)
          else (case array_items scan_once [] (nextchar # cs) of
                  Inl e \<Rightarrow> Inl e
                | Inr (values, rest) \<Rightarrow> Inr (PList values, rest)))"

function object_items :: "scanner \<Rightarrow> (str \<times> pyval) list \<Rightarrow> str \<Rightarrow> exn + (str \<times> pyval) list \<times> str" where
  "object_items scan_once pairs s =
     (case scanstring [] s of
        Inl e \<Rightarrow> Inl e
      | Inr (key, r1) \<Rightarrow>
          (case skip_ws r1 of
             [] \<Rightarrow> Inl (JSONDecodeError Expecting_colon_delimiter)
           | colon # r2 \<Rightarrow>
               if colon \<noteq> 58 then Inl (JSONDecodeError Expecting_colon_delimiter)
               else
                 (case scan_once (skip_ws r2) of
                    Inl e \<Rightarrow> Inl e
                  | Inr (value, r3) \<Rightarrow>
                      (case skip_ws r3 of
                         [] \<Rightarrow> Inl (JSONDecodeError Expecting_comma_delimiter)
                       | nextchar # r4 \<Rightarrow>
                           if nextchar = 125 then Inr (pairs @ [(key, value)], r4)
                           else if nextchar \<noteq> 44 then Inl (JSONDecodeError Expecting_comma_delimiter)
                           else
                             (case skip_ws r4 of
                                [] \<Rightarrow> Inl (JSONDecodeError Expecting_property_name)
                              | quote # r5 \<Rightarrow>
                                  if quote \<noteq> 34 then Inl (JSONDecodeError Expecting_property_name)
                                  else if length r5 < length s
                                  then object_items scan_once (pairs @ [(key, value)]) r5
                                  else Inl NoProgress)))))"
  by pat_completeness auto
termination
  by (relation "measure (\<lambda>(scan_once, pairs, s). length s)") auto

declare object_items.simps [simp del]

definition JSONObject :: "scanner \<Rightarrow> str \<Rightarrow> exn + pyval \<times> str" where
  "JSONObject scan_once s =
     (case skip_ws s of
        [] \<Rightarrow> Inl (JSONDecodeError Expecting_property_name)
      | nextchar # cs \<Rightarrow>
          if nextchar = 125 then Inr (PDict [], cs)
          else if nextchar \<noteq> 34 then Inl (JSONDecodeError Expecting_property_name)
          else (case object_items scan_once [] cs of
                  Inl e \<Rightarrow> Inl e
                | Inr (pairs, rest) \<Rightarrow> Inr (PDict (dict_of_pairs pairs), rest)))"

text \<open>
  \<^verbatim>\<open>scan_once\<close>. Entering an array or an object is a recursive call of the interpreter:
  \<open>scan_once depth\<close> may nest \<open>depth\<close> containers and raises RecursionError at the next.
\<close>

definition scan_with :: "scanner option \<Rightarrow> str \<Rightarrow> exn + pyval \<times> str" where
  "scan_with nested s =
     (case s of
        [] \<Rightarrow> Inl (JSONDecodeError Expecting_value)
      | nextchar # cs \<Rightarrow>
          if nextchar = 34 then
            (case scanstring [] cs of Inl e \<Rightarrow> Inl e | Inr (v, rest) \<Rightarrow> Inr (PStr v, rest))
          else if nextchar = 123 then
            (case nested of None \<Rightarrow> Inl RecursionError | Some scan_once \<Rightarrow> JSONObject scan_once cs)
          else if nextchar = 91 then
            (case nested of None \<Rightarrow> Inl RecursionError | Some scan_once \<Rightarrow> JSONArray scan_once cs)
          else if prefix (py ''null'') s then Inr (PNone, drop 4 s)
          else if prefix (py ''true'') s then Inr (PBool True, drop 4 s)
          else if prefix (py ''false'') s then Inr (PBool False, drop 5 s)
          else
            (case match_number s of
               Some (m, rest) \<Rightarrow>
                 (case number_value m of Inl e \<Rightarrow> Inl e | Inr v \<Rightarrow> Inr (v, rest))
             | None \<Rightarrow>
                 if prefix (py ''NaN'') s then Inr (PFloat NaN, drop 3 s)
                 else if prefix (py ''Infinity'') s then Inr (PFloat (Infinity False), drop 8 s)
                 else if prefix (py ''-Infinity'') s then Inr (PFloat (Infinity True), drop 9 s)
                 else Inl (JSONDecodeError Expecting_value)))"

primrec scan_once :: "nat \<Rightarrow> scanner" where
  "scan_once 0 = scan_with None"
| "scan_once (Suc depth) = scan_with (Some (scan_once depth))"

text \<open>\<^verbatim>\<open>json.loads(s)\<close>, with the depth the interpreter has left.\<close>

definition json_loads :: "nat \<Rightarrow> str \<Rightarrow> exn + pyval" where
  "json_loads depth s =
     (if prefix [0xfeff] s then Inl (JSONDecodeError Unexpected_BOM)
      else (case scan_once depth (skip_ws s) of
              Inl e \<Rightarrow> Inl e
            | Inr (obj, rest) \<Rightarrow>
                if skip_ws rest \<noteq> [] then Inl (JSONDecodeError Extra_data) else Inr obj))"

text \<open>
  A scanner consumes when it never answers \<open>NoProgress\<close> and every value it returns has
  used up at least one character.
\<close>

definition consumes :: "scanner \<Rightarrow> bool" where
  "consumes scan \<longleftrightarrow>
     (\<forall>s. scan s \<noteq> Inl NoProgress) \<and> (\<forall>s v rest. scan s = Inr (v, rest) \<longrightarrow> length rest < length s)"

section \<open>The outside world\<close>

text \<open>
  The two libraries the program calls are parameters of the model. A call either returns
  or raises; \<open>Inl\<close> is the exception.
  \<^item> \<open>convert_from_bytes pdf_bytes first_page last_page\<close> is pdf2image's function of that
    name: the images of the pages of that 1-based range.
  \<^item> \<open>generate_content prompt img\<close> is \<^verbatim>\<open>GEMINI_MODEL.generate_content([prompt, img]).text\<close>:
    the text of the reply, or the exception of the call or of reading \<^verbatim>\<open>.text\<close>.
  \<^item> \<open>recursion_depth\<close> is how many nested containers \<^verbatim>\<open>json.loads\<close> may enter before the
    interpreter raises RecursionError.
\<close>

type_synonym bytes = "char list"

record 'img env =
  convert_from_bytes :: "bytes \<Rightarrow> int \<Rightarrow> int \<Rightarrow> exn + 'img list"
  generate_content :: "str \<Rightarrow> 'img \<Rightarrow> exn + str"
  recursion_depth :: nat

text \<open>
  What a run does besides computing values, in the order it happens: the calls of the two
  libraries, the Streamlit elements it puts on the page, and what it prints on the
  standard output of the server process. \<open>St_error msg e\<close> is \<^verbatim>\<open>st.error(f"{msg}{e}")\<close>,
  \<open>Print msg e\<close> is \<^verbatim>\<open>print(f"{msg}{e}")\<close>; how Python renders the exception \<open>e\<close> as text
  is not modelled. \<open>St_text_input key value\<close> is the disabled text input labelled \<open>key\<close>
  that shows \<^verbatim>\<open>str(value)\<close>, and \<open>St_image img n\<close> the image with the caption
  "Analyzed Page n".
\<close>

datatype 'img effect =
    Call_convert_from_bytes bytes int int
  | Call_generate_content str 'img
  | Print str exn
  | St_error str exn
  | St_warning str
  | St_info str
  | St_header str
  | St_subheader str
  | St_text_input str pyval
  | St_image 'img int

fun is_element :: "'img effect \<Rightarrow> bool" where
  "is_element (Call_convert_from_bytes b f l) \<longleftrightarrow> False"
| "is_element (Call_generate_content p i) \<longleftrightarrow> False"
| "is_element (Print m e) \<longleftrightarrow> False"
| "is_element _ \<longleftrightarrow> True"

fun is_call :: "'img effect \<Rightarrow> bool" where
  "is_call (Call_convert_from_bytes b f l) \<longleftrightarrow> True"
| "is_call (Call_generate_content p i) \<longleftrightarrow> True"
| "is_call _ \<longleftrightarrow> False"


section \<open>The helper functions\<close>

text \<open>
  \<^verbatim>\<open>pdf_to_image\<close> is defined twice in \<^verbatim>\<open>app.py\<close>. The second \<^verbatim>\<open>def\<close> (line 79) rebinds
  the name, so it is the function the page calls at line 139: it has no
  \<^verbatim>\<open>st.cache_data\<close> decorator and reports an exception with \<^verbatim>\<open>print\<close>. The first
  definition (line 29), decorated and reporting with \<^verbatim>\<open>st.error\<close>, is never called.
\<close>

definition pdf_to_image :: "'img env \<Rightarrow> bytes \<Rightarrow> int \<Rightarrow> 'img option \<times> 'img effect list" where
  "pdf_to_image env pdf_bytes page_number =
     (case convert_from_bytes env pdf_bytes (page_number + 1) (page_number + 1) of
        Inr images \<Rightarrow>
          ((case images of [] \<Rightarrow> None | img # _ \<Rightarrow> Some img),
           [Call_convert_from_bytes pdf_bytes (page_number + 1) (page_number + 1)])
      | Inl e \<Rightarrow>
          (None,
           [Call_convert_from_bytes pdf_bytes (page_number + 1) (page_number + 1),
            Print (py ''Error: '') e]))"

text \<open>
  Line 71:
  \<^verbatim>\<open>json_str = response.text.strip().replace("```json", "").replace("```", "").strip()\<close>
\<close>

definition json_str :: "str \<Rightarrow> str" where
  "json_str text = strip (replace (py ''```'') [] (replace (py ''```json'') [] (strip text)))"

text \<open>
  The body of \<^verbatim>\<open>analyze_document_with_gemini\<close>: what runs when the cache of the decorator
  has no entry. Python's \<^verbatim>\<open>None\<close> is \<open>PNone\<close>.
\<close>

definition analyze_document_with_gemini ::
  "'img env \<Rightarrow> 'img \<Rightarrow> str list \<Rightarrow> pyval \<times> 'img effect list" where
  "analyze_document_with_gemini env img placeholders =
     (case generate_content env (prompt placeholders) img of
        Inl e \<Rightarrow>
          (PNone,
           [Call_generate_content (prompt placeholders) img,
            St_error (py ''Error during AI analysis: '') e])
      | Inr text \<Rightarrow>
          (case json_loads (recursion_depth env) (json_str text) of
             Inl e \<Rightarrow>
               (PNone,
                [Call_generate_content (prompt placeholders) img,
                 St_error (py ''Error during AI analysis: '') e])
           | Inr value \<Rightarrow> (value, [Call_generate_content (prompt placeholders) img])))"

section \<open>The cache of \<^verbatim>\<open>st.cache_data\<close>\<close>

text \<open>
  \<^verbatim>\<open>st.cache_data\<close> keeps, for one decorated function, the returned value and the elements
  the call put on the page under a key made of the arguments, and on a later call with
  the same key returns the value and replays the elements without running the body.
  Streamlit leaves an argument out of the key when the name of its parameter starts with
  an underscore. \<open>cache_key\<close> takes the parameters as pairs of name and argument.
\<close>

datatype 'img arg = Arg_image 'img | Arg_placeholders "str list"

definition cache_key :: "(string \<times> 'a) list \<Rightarrow> 'a list" where
  "cache_key params = map snd (filter (\<lambda>(name, value). \<not> prefix ''_'' name) params)"

type_synonym 'img cache = "'img arg list \<rightharpoonup> pyval \<times> 'img effect list"

text \<open>
  The decorated \<^verbatim>\<open>analyze_document_with_gemini(_image, _placeholders)\<close> of lines 38 and 39,
  the function the page calls at line 144.
\<close>

definition cached_analyze_document_with_gemini ::
  "'img env \<Rightarrow> 'img cache \<Rightarrow> 'img \<Rightarrow> str list \<Rightarrow> pyval \<times> 'img effect list \<times> 'img cache" where
  "cached_analyze_document_with_gemini env cache img placeholders =
     (let key = cache_key [(''_image'', Arg_image img),
                           (''_placeholders'', Arg_placeholders placeholders)]
      in case cache key of
           Some (value, elements) \<Rightarrow> (value, elements, cache)
         | None \<Rightarrow>
             (case analyze_document_with_gemini env img placeholders of
                (value, effects) \<Rightarrow>
                  (value, effects, cache(key \<mapsto> (value, filter is_element effects)))))"

section \<open>One run of the page\<close>

text \<open>
  The widgets of the sidebar give the inputs of a run: whether the button was pressed,
  the uploaded file (\<open>None\<close> without one), the number in the page selector (at least 1;
  the selector exists only with a file) and the text of the text area.
\<close>

record inputs =
  extract_button :: bool
  uploaded_file :: "bytes option"
  number_input :: int
  placeholders_text :: str

record 'img session_state =
  result :: pyval
  image_to_display :: "'img option"

text \<open>Lines 96 to 99.\<close>

definition initial_session_state :: "'img session_state" where
  "initial_session_state = \<lparr>result = PNone, image_to_display = None\<rparr>"

text \<open>Lines 107 to 110.\<close>

definition page_number :: "inputs \<Rightarrow> int" where
  "page_number inp = (if uploaded_file inp \<noteq> None then number_input inp - 1 else 0)"

text \<open>
  Line 133:
  \<^verbatim>\<open>[p.strip() for p in placeholders_text.strip().split('\n') if p.strip()]\<close>
\<close>

definition placeholders_of :: "str \<Rightarrow> str list" where
  "placeholders_of text = map strip (filter (\<lambda>p. strip p \<noteq> []) (split_str 10 (strip text)))"

text \<open>
  Lines 132 to 148. An uploaded file and a non-empty string are true in Python, as is
  every image.
\<close>

definition extract_action ::
  "'img env \<Rightarrow> inputs \<Rightarrow> 'img session_state \<times> 'img cache
     \<Rightarrow> 'img session_state \<times> 'img cache \<times> 'img effect list" where
  "extract_action env inp sc =
     (case sc of (session, cache) \<Rightarrow>
        (case uploaded_file inp of
           None \<Rightarrow> (session, cache, [])
         | Some pdf_bytes \<Rightarrow>
             if extract_button inp \<and> placeholders_text inp \<noteq> [] then
               (let placeholders = placeholders_of (placeholders_text inp)
                in if placeholders = [] then
                     (session, cache, [St_warning (py ''Please define at least one placeholder.'')])
                   else
                     (case pdf_to_image env pdf_bytes (page_number inp) of
                        (Some img, effects1) \<Rightarrow>
                          (case cached_analyze_document_with_gemini env cache img placeholders of
                             (analysis_result, effects2, cache') \<Rightarrow>
                               (session\<lparr>image_to_display := Some img, result := analysis_result\<rparr>,
                                cache', effects1 @ effects2))
                      | (None, effects1) \<Rightarrow>
                          (session\<lparr>result := PNone, image_to_display := None\<rparr>, cache, effects1)))
             else (session, cache, [])))"

text \<open>
  Lines 152 to 173. \<^verbatim>\<open>st.session_state.result.items()\<close> exists for a dict only; for any
  other value the attribute lookup raises AttributeError, after the two headings and
  before anything else is shown.
\<close>

definition display_results :: "inputs \<Rightarrow> 'img session_state \<Rightarrow> 'img effect list \<times> exn option" where
  "display_results inp session =
     (if truthy (result session) then
        (case result session of
           PDict items \<Rightarrow>
             ([St_header (py ''Extracted Information''), St_subheader (py ''Results'')]
              @ map (\<lambda>(key, value). St_text_input key value) items
              @ [St_subheader (py ''Analyzed Document'')]
              @ (case image_to_display session of
                   Some img \<Rightarrow> [St_image img (page_number inp + 1)]
                 | None \<Rightarrow> []),
              None)
         | _ \<Rightarrow>
             ([St_header (py ''Extracted Information''), St_subheader (py ''Results'')],
              Some AttributeError))
      else if \<not> extract_button inp then
        ([St_info (py ''Upload a PDF and define placeholders in the sidebar to begin.'')], None)
      else ([], None))"

text \<open>
  A run of the script from line 96 on: the session state and the cache after it, its
  effects, and the exception that ends it, if one does.
\<close>

record 'img run =
  session_after :: "'img session_state"
  cache_after :: "'img cache"
  effects :: "'img effect list"
  raised :: "exn option"

definition script :: "'img env \<Rightarrow> inputs \<Rightarrow> 'img session_state \<times> 'img cache \<Rightarrow> 'img run" where
  "script env inp sc =
     (case extract_action env inp sc of
        (session, cache, effects1) \<Rightarrow>
          (case display_results inp session of
             (effects2, exc) \<Rightarrow>
               \<lparr>session_after = session, cache_after = cache,
                effects = effects1 @ effects2, raised = exc\<rparr>))"

section \<open>Example environments\<close>

text \<open>
  Concrete libraries, inputs and sessions on which the model is evaluated below. Images
  are numbers. In \<open>example_env\<close> every page gives image 0 and the model answers with the
  example of the prompt; in \<open>prose_env\<close> the model answers with a sentence.
  \<open>example_inputs\<close> is the button pressed with a file uploaded, page 1 selected and two
  fields in the text area.
\<close>

definition example_env :: "nat env" where
  "example_env =
     \<lparr>convert_from_bytes = (\<lambda>pdf_bytes first_page last_page. Inr [0]),
      generate_content = (\<lambda>prompt img. Inr example_json),
      recursion_depth = 100\<rparr>"

definition prose_env :: "nat env" where
  "prose_env =
     \<lparr>convert_from_bytes = (\<lambda>pdf_bytes first_page last_page. Inr [0]),
      generate_content = (\<lambda>prompt img. Inr (py ''I could not read the document.'')),
      recursion_depth = 100\<rparr>"

definition example_inputs :: inputs where
  "example_inputs =
     \<lparr>extract_button = True, uploaded_file = Some ''%PDF-1.4'', number_input = 1,
      placeholders_text = py ''Invoice Number\<newline>Total Amount''\<rparr>"

text \<open>A document of one page: the backend has no image for any other page.\<close>

definition one_page_env :: "nat env" where
  "one_page_env =
     \<lparr>convert_from_bytes =
        (\<lambda>pdf_bytes first_page last_page. if first_page = 1 \<and> last_page = 1 then Inr [0] else Inr []),
      generate_content = (\<lambda>prompt img. Inr example_json),
      recursion_depth = 100\<rparr>"

text \<open>
  A backend that returns two images, the first one numbered like the page asked for, and
  a model whose reply depends on the image.
\<close>

definition two_replies_env :: "nat env" where
  \<open>two_replies_env =
     \<lparr>convert_from_bytes = (\<lambda>pdf_bytes first_page last_page. Inr [nat first_page, 0]),
      generate_content =
        (\<lambda>prompt img. if img = 2 then Inr (py ''{"A": "1"}'') else Inr (py ''{"B": "2"}'')),
      recursion_depth = 100\<rparr>\<close>

text \<open>A session that holds the result and the image of an earlier, successful action.\<close>

definition earlier_session :: "nat session_state" where
  "earlier_session =
     \<lparr>result = PDict [(py ''Total Amount'', PStr (py ''7''))], image_to_display = Some 5\<rparr>"

section \<open>Properties of the prompt\<close>

lemma sublist_join:
  "f \<in> set xs \<Longrightarrow> sublist f (join sep xs)"
proof (induction sep xs rule: join.induct)
  case (1 sep)
  then show ?case by simp
next
  case (2 sep x)
  then show ?case by simp
next
  case (3 sep x y ys)
  show ?case
  proof (cases "f = x")
    case True
    then show ?thesis by simp
  next
    case False
    with 3 have "sublist f (join sep (y # ys))" by simp
    then obtain ps ss where "join sep (y # ys) = ps @ f @ ss"
      by (auto simp: sublist_def)
    then have "join sep (x # y # ys) = (x @ sep @ ps) @ f @ ss" by simp
    then show ?thesis unfolding sublist_def by blast
  qed
qed

lemma sublist_here: "sublist x (x @ b)"
  by simp

lemma sublist_left: "sublist x a \<Longrightarrow> sublist x (a @ b)"
  by (metis append.assoc sublist_def)

lemma sublist_skip: "sublist x b \<Longrightarrow> sublist x (a @ b)"
  by (metis append.assoc sublist_def)

text \<open>
  C1. For every non-empty list of field names the prompt contains each field name as it
  is, the instruction that the response must be a single JSON object, the instruction
  that its keys must match the field names exactly, the instruction to give "N/A" for
  a value that cannot be found, and the worked example: its field list Invoice Number,
  Customer Name, Total Amount and its JSON response.
\<close>

theorem prompt_contains_fields_and_instructions:
  assumes "placeholders \<noteq> []"
  shows "(\<forall>f \<in> set placeholders. sublist f (prompt placeholders))
       \<and> sublist instruction_3 (prompt placeholders)
       \<and> sublist instruction_4 (prompt placeholders)
       \<and> sublist instruction_5 (prompt placeholders)
       \<and> sublist sentinel (prompt placeholders)
       \<and> sublist example_fields (prompt placeholders)
       \<and> sublist example_json (prompt placeholders)"
proof (intro conjI ballI)
  fix f assume "f \<in> set placeholders"
  then have "sublist f (join (py '', '') placeholders)" by (rule sublist_join)
  then show "sublist f (prompt placeholders)"
    unfolding prompt_def Let_def by (intro sublist_skip[of _ _ prompt_task] sublist_left)
next
  show "sublist instruction_3 (prompt placeholders)"
    unfolding prompt_def Let_def by (fast intro: sublist_here sublist_skip)
next
  show "sublist instruction_4 (prompt placeholders)"
    unfolding prompt_def Let_def by (fast intro: sublist_here sublist_skip)
next
  show "sublist instruction_5 (prompt placeholders)"
    unfolding prompt_def Let_def by (fast intro: sublist_here sublist_skip)
next
  show "sublist sentinel (prompt placeholders)"
    unfolding prompt_def Let_def instruction_5_def
    by (fast intro: sublist_here sublist_skip sublist_left)
next
  show "sublist example_fields (prompt placeholders)"
    unfolding prompt_def Let_def by (fast intro: sublist_here sublist_skip)
next
  show "sublist example_json (prompt placeholders)"
    unfolding prompt_def Let_def by (fast intro: sublist_here sublist_skip)
qed

theorem prompt_contains_fields_witness:
  "[py ''Invoice Number'', py ''Due Date''] \<noteq> []
   \<and> sublist (py ''Invoice Number'') (prompt [py ''Invoice Number'', py ''Due Date''])
   \<and> sublist (py ''Due Date'') (prompt [py ''Invoice Number'', py ''Due Date''])
   \<and> sublist instruction_3 (prompt [py ''Invoice Number'', py ''Due Date''])
   \<and> sublist instruction_4 (prompt [py ''Invoice Number'', py ''Due Date''])
   \<and> sublist instruction_5 (prompt [py ''Invoice Number'', py ''Due Date''])
   \<and> sublist sentinel (prompt [py ''Invoice Number'', py ''Due Date''])
   \<and> sublist example_fields (prompt [py ''Invoice Number'', py ''Due Date''])
   \<and> sublist example_json (prompt [py ''Invoice Number'', py ''Due Date''])"
  using prompt_contains_fields_and_instructions [of "[py ''Invoice Number'', py ''Due Date'']"]
  by simp

section \<open>Properties of the string functions\<close>

lemma replace_Nil: "replace old new [] = (if old = [] then new else [])"
  by (simp add: replace.simps)

lemma replace_prefix:
  "old \<noteq> [] \<Longrightarrow> replace old new (old @ s) = new @ replace old new s"
  by (subst replace.simps) simp

lemma replace_Cons_other:
  "old \<noteq> [] \<Longrightarrow> \<not> prefix old (c # s) \<Longrightarrow> replace old new (c # s) = c # replace old new s"
  by (subst replace.simps) simp

lemma replace_Cons_match:
  "old \<noteq> [] \<Longrightarrow> prefix old (c # s) \<Longrightarrow>
   replace old new (c # s) = new @ replace old new (drop (length old) (c # s))"
  by (subst replace.simps) simp

lemma replace_spaces_left:
  assumes "old \<noteq> []" "\<not> is_space (hd old)" "\<forall>c \<in> set w. is_space c"
  shows "replace old new (w @ x) = w @ replace old new x"
  using assms(3)
proof (induction w)
  case Nil
  then show ?case by simp
next
  case (Cons c w)
  from assms(1,2) Cons.prems have "\<not> prefix old (c # w @ x)"
    by (cases old) auto
  with assms(1) Cons show ?case
    by (simp add: replace_Cons_other)
qed

lemma replace_append_no_straddle:
  assumes "old \<noteq> []"
    and "\<And>us vs. old = us @ vs \<Longrightarrow> us \<noteq> [] \<Longrightarrow> vs \<noteq> [] \<Longrightarrow> \<not> prefix vs t"
  shows "replace old new (x @ t) = replace old new x @ replace old new t"
proof (induction x rule: length_induct)
  case (1 x)
  show ?case
  proof (cases x)
    case Nil
    with assms(1) show ?thesis by (simp add: replace_Nil)
  next
    case (Cons c cs)
    show ?thesis
    proof (cases "prefix old x")
      case True
      then have len: "length old \<le> length x" by (rule prefix_length_le)
      from True have "prefix old (c # cs @ t)"
        using Cons by (metis append_Cons prefix_prefix)
      then have "replace old new (c # cs @ t)
                 = new @ replace old new (drop (length old) (c # cs @ t))"
        using assms(1) by (rule replace_Cons_match[rotated])
      moreover have "drop (length old) (x @ t) = drop (length old) x @ t"
        using len by simp
      ultimately have "replace old new (x @ t) = new @ replace old new (drop (length old) x @ t)"
        using Cons by simp
      moreover have "length (drop (length old) x) < length x"
        using assms(1) Cons by simp
      then have "replace old new (drop (length old) x @ t)
                 = replace old new (drop (length old) x) @ replace old new t"
        using 1 by blast
      moreover have "replace old new x = new @ replace old new (drop (length old) x)"
        using True assms(1) Cons by (simp add: replace_Cons_match)
      ultimately show ?thesis by simp
    next
      case False
      have "\<not> prefix old (x @ t)"
      proof
        assume "prefix old (x @ t)"
        then consider "prefix old x" | us where "old = x @ us" "prefix us t"
          by (auto simp: prefix_append)
        then show False
        proof cases
          case 1
          with False show ?thesis by simp
        next
          case 2
          show ?thesis
          proof (cases "us = []")
            case True
            with 2 False show ?thesis by simp
          next
            case False
            with assms(2)[of x us] 2 Cons show ?thesis by simp
          qed
        qed
      qed
      then have "replace old new (x @ t) = c # replace old new (cs @ t)"
        using assms(1) Cons by (simp add: replace_Cons_other)
      moreover have "replace old new (cs @ t) = replace old new cs @ replace old new t"
        using 1 Cons by simp
      moreover have "replace old new x = c # replace old new cs"
        using False assms(1) Cons by (simp add: replace_Cons_other)
      ultimately show ?thesis by simp
    qed
  qed
qed

lemma replace_spaces_only:
  assumes "old \<noteq> []" "\<not> is_space (hd old)" "\<forall>c \<in> set w. is_space c"
  shows "replace old new w = w"
  using replace_spaces_left[OF assms, of new "[]"] assms(1) by (simp add: replace_Nil)

lemma replace_spaces_right:
  assumes "old \<noteq> []" "\<forall>c \<in> set old. \<not> is_space c" "\<forall>c \<in> set w. is_space c"
  shows "replace old new (x @ w) = replace old new x @ w"
proof -
  have "\<not> prefix vs w" if "old = us @ vs" "vs \<noteq> []" for us vs
  proof
    assume "prefix vs w"
    with that(2) have "hd vs \<in> set w"
      by (metis hd_in_set prefix_def set_append UnCI)
    moreover have "hd vs \<in> set old" using that by simp
    ultimately show False using assms(2,3) by blast
  qed
  then have "replace old new (x @ w) = replace old new x @ replace old new w"
    using assms(1) by (intro replace_append_no_straddle) auto
  moreover have "\<not> is_space (hd old)" using assms(1,2) by simp
  ultimately show ?thesis using replace_spaces_only[OF assms(1) _ assms(3)] by simp
qed

lemma fence_codes: "py ''```'' = [96, 96, 96]"
  by (simp add: py_def)

lemma fence_json_codes: "py ''```json'' = [96, 96, 96, 106, 115, 111, 110]"
  by (simp add: py_def)

text \<open>Removing the marker with the word json: a closing fence after the text stays.\<close>

lemma replace_fence_json_before_fence:
  "replace (py ''```json'') [] (x @ py ''```'') = replace (py ''```json'') [] x @ py ''```''"
proof -
  have "\<not> prefix vs (py ''```'')" if "py ''```json'' = us @ vs" "us \<noteq> []" "vs \<noteq> []" for us vs
    using that unfolding fence_codes fence_json_codes
    by (auto simp: Cons_eq_append_conv)
  then have "replace (py ''```json'') [] (x @ py ''```'')
             = replace (py ''```json'') [] x @ replace (py ''```json'') [] (py ''```'')"
    by (intro replace_append_no_straddle) (auto simp: fence_json_codes)
  moreover have "replace (py ''```json'') [] (py ''```'') = py ''```''"
    unfolding fence_codes fence_json_codes
    by (simp add: replace_Cons_other replace_Nil)
  ultimately show ?thesis by simp
qed

text \<open>Removing the plain marker: a closing fence after the text disappears.\<close>

lemma replace_fence_before_fence:
  "replace (py ''```'') [] (x @ py ''```'') = replace (py ''```'') [] x"
proof (induction x rule: length_induct)
  case (1 x)
  show ?case
  proof (cases x)
    case Nil
    then show ?thesis
      using replace_prefix[of "py ''```''" "[]" "[]"] by (simp add: fence_codes replace_Nil)
  next
    case (Cons c cs)
    show ?thesis
    proof (cases "prefix (py ''```'') x")
      case True
      then obtain r where x: "x = py ''```'' @ r" by (auto simp: prefix_def)
      then have "length r < length x" by (simp add: fence_codes)
      with 1 have "replace (py ''```'') [] (r @ py ''```'') = replace (py ''```'') [] r" by blast
      moreover have "replace (py ''```'') [] (x @ py ''```'') = replace (py ''```'') [] (r @ py ''```'')"
        using replace_prefix[of "py ''```''" "[]" "r @ py ''```''"] x by (simp add: fence_codes)
      moreover have "replace (py ''```'') [] x = replace (py ''```'') [] r"
        using replace_prefix[of "py ''```''" "[]" r] x by (simp add: fence_codes)
      ultimately show ?thesis by simp
    next
      case False
      show ?thesis
      proof (cases "prefix (py ''```'') (x @ py ''```'')")
        case True
        with False obtain us where us: "py ''```'' = x @ us" "us \<noteq> []"
          by (auto simp: prefix_append)
        then have "x = [96] \<or> x = [96, 96]"
          using Cons unfolding fence_codes by (auto simp: Cons_eq_append_conv)
        then show ?thesis
          unfolding fence_codes
          by (auto simp: replace_Cons_match)
      next
        case nope: False
        then have "replace (py ''```'') [] (x @ py ''```'') = c # replace (py ''```'') [] (cs @ py ''```'')"
          using Cons by (simp add: replace_Cons_other fence_codes)
        moreover have "replace (py ''```'') [] (cs @ py ''```'') = replace (py ''```'') [] cs"
          using 1 Cons by simp
        moreover have "replace (py ''```'') [] x = c # replace (py ''```'') [] cs"
          using False Cons by (simp add: replace_Cons_other fence_codes)
        ultimately show ?thesis by simp
      qed
    qed
  qed
qed

text \<open>
  Removing the marker with the word json from a text that opens with the plain marker:
  the plain marker stays, unless the text after it makes it one with the word json.
\<close>

lemma replace_fence_json_after_fence:
  assumes "\<not> prefix [106, 115, 111, 110] y" "\<not> prefix [96, 106, 115, 111, 110] y"
    "\<not> prefix [96, 96, 106, 115, 111, 110] y"
  shows "replace (py ''```json'') [] (py ''```'' @ y) = py ''```'' @ replace (py ''```json'') [] y"
proof -
  have "\<not> prefix [96, 96, 96, 106, 115, 111, 110] (96 # 96 # 96 # y)"
    "\<not> prefix [96, 96, 96, 106, 115, 111, 110] (96 # 96 # y)"
    "\<not> prefix [96, 96, 96, 106, 115, 111, 110] (96 # y)"
    using assms by simp_all
  then show ?thesis
    unfolding fence_codes fence_json_codes
    by (simp add: replace_Cons_other)
qed

subsection \<open>strip\<close>

lemma lstrip_spaces: "\<forall>c \<in> set a. is_space c \<Longrightarrow> lstrip (a @ y) = lstrip y"
  by (simp add: lstrip_def dropWhile_append)

lemma rstrip_spaces: "\<forall>c \<in> set b. is_space c \<Longrightarrow> rstrip (y @ b) = rstrip y"
  by (simp add: rstrip_def dropWhile_append)

lemma rstrip_append_keep:
  "rstrip y \<noteq> [] \<Longrightarrow> rstrip (a @ y) = a @ rstrip y"
  by (auto simp: rstrip_def dropWhile_append)

lemma rstrip_all_spaces: "rstrip y = [] \<longleftrightarrow> (\<forall>c \<in> set y. is_space c)"
  by (simp add: rstrip_def)

lemma strip_spaces:
  assumes "\<forall>c \<in> set a. is_space c" "\<forall>c \<in> set b. is_space c"
  shows "strip (a @ y @ b) = strip y"
proof -
  have "rstrip (a @ y @ b) = rstrip (a @ y)"
    using rstrip_spaces[OF assms(2), of "a @ y"] by simp
  show ?thesis
  proof (cases "rstrip y = []")
    case True
    then have "\<forall>c \<in> set (a @ y). is_space c"
      using assms(1) by (auto simp: rstrip_all_spaces)
    then have "rstrip (a @ y) = []" by (simp only: rstrip_all_spaces)
    with True \<open>rstrip (a @ y @ b) = rstrip (a @ y)\<close> show ?thesis
      by (simp add: strip_def lstrip_def)
  next
    case False
    then have "rstrip (a @ y) = a @ rstrip y" by (rule rstrip_append_keep)
    with \<open>rstrip (a @ y @ b) = rstrip (a @ y)\<close> show ?thesis
      by (simp add: strip_def lstrip_spaces[OF assms(1)])
  qed
qed

lemma strip_decomp:
  "\<exists>a b. s = a @ strip s @ b \<and> (\<forall>c \<in> set a. is_space c) \<and> (\<forall>c \<in> set b. is_space c)"
proof -
  let ?b = "rev (takeWhile is_space (rev s))"
  let ?a = "takeWhile is_space (rstrip s)"
  have "s = rstrip s @ ?b"
    unfolding rstrip_def by (metis rev_append rev_rev_ident takeWhile_dropWhile_id)
  moreover have "rstrip s = ?a @ strip s"
    by (simp add: strip_def lstrip_def)
  ultimately have "s = ?a @ strip s @ ?b" by (metis append.assoc)
  moreover have "\<forall>c \<in> set ?a. is_space c" by (auto dest: set_takeWhileD)
  moreover have "\<forall>c \<in> set ?b. is_space c" by (auto dest: set_takeWhileD)
  ultimately show ?thesis by blast
qed

subsection \<open>The cleaning of the reply\<close>

lemma fence_no_space:
  "py ''```'' \<noteq> []" "\<not> is_space (hd (py ''```''))" "\<forall>c \<in> set (py ''```''). \<not> is_space c"
  "py ''```json'' \<noteq> []" "\<not> is_space (hd (py ''```json''))" "\<forall>c \<in> set (py ''```json''). \<not> is_space c"
  by (simp_all add: fence_codes fence_json_codes is_space_def)

lemma remove_fences_spaces:
  assumes "\<forall>c \<in> set a. is_space c" "\<forall>c \<in> set b. is_space c"
  shows "replace (py ''```'') [] (replace (py ''```json'') [] (a @ y @ b))
         = a @ replace (py ''```'') [] (replace (py ''```json'') [] y) @ b"
proof -
  have "replace (py ''```json'') [] (a @ y @ b) = a @ replace (py ''```json'') [] y @ b"
    using replace_spaces_left[OF fence_no_space(4,5) assms(1)]
      replace_spaces_right[OF fence_no_space(4,6) assms(2)] by simp
  then show ?thesis
    using replace_spaces_left[OF fence_no_space(1,2) assms(1)]
      replace_spaces_right[OF fence_no_space(1,3) assms(2)] by simp
qed

lemma json_str_unstripped:
  "json_str text = strip (replace (py ''```'') [] (replace (py ''```json'') [] text))"
proof -
  obtain a b where ab: "text = a @ strip text @ b" "\<forall>c \<in> set a. is_space c" "\<forall>c \<in> set b. is_space c"
    using strip_decomp by blast
  have "strip (replace (py ''```'') [] (replace (py ''```json'') [] (a @ strip text @ b)))
        = json_str text"
    unfolding remove_fences_spaces[OF ab(2,3)] json_str_def
    by (rule strip_spaces[OF ab(2,3)])
  with ab(1) show ?thesis by simp
qed

lemma json_str_spaces:
  assumes "\<forall>c \<in> set a. is_space c" "\<forall>c \<in> set b. is_space c"
  shows "json_str (a @ y @ b) = json_str y"
  unfolding json_str_unstripped remove_fences_spaces[OF assms]
  by (rule strip_spaces[OF assms])

lemma json_str_fence_json:
  "json_str (py ''```json'' @ y @ py ''```'') = json_str y"
proof -
  have "replace (py ''```json'') [] (py ''```json'' @ y @ py ''```'')
        = replace (py ''```json'') [] y @ py ''```''"
    using replace_prefix[OF fence_no_space(4), of "[]" "y @ py ''```''"]
      replace_fence_json_before_fence[of y] by simp
  then show ?thesis
    unfolding json_str_unstripped by (simp add: replace_fence_before_fence)
qed

lemma json_str_fence:
  assumes "y = [] \<or> (hd y \<noteq> 96 \<and> hd y \<noteq> 106)"
  shows "json_str (py ''```'' @ y @ py ''```'') = json_str y"
proof -
  have "\<not> prefix [106, 115, 111, 110] (y @ py ''```'')"
    "\<not> prefix [96, 106, 115, 111, 110] (y @ py ''```'')"
    "\<not> prefix [96, 96, 106, 115, 111, 110] (y @ py ''```'')"
    using assms by (cases y; auto simp: fence_codes)+
  then have "replace (py ''```json'') [] (py ''```'' @ y @ py ''```'')
        = py ''```'' @ replace (py ''```json'') [] y @ py ''```''"
    using replace_fence_json_after_fence[of "y @ py ''```''"]
      replace_fence_json_before_fence[of y] by simp
  then show ?thesis
    unfolding json_str_unstripped
    using replace_prefix[OF fence_no_space(1), of "[]"]
    by (simp add: replace_fence_before_fence)
qed

section \<open>Evaluating the model\<close>

lemma skip_ws_simps:
  "skip_ws [] = []"
  "skip_ws (c # cs) = (if json_ws c then skip_ws cs else c # cs)"
  by (simp_all add: skip_ws_def)

lemma scan_once_numeral:
  "scan_once (numeral k) = scan_with (Some (scan_once (pred_numeral k)))"
  by (simp add: numeral_eq_Suc)

lemmas json_eval =
  json_loads_def scan_with_def scan_once_numeral JSONObject_def JSONArray_def
  object_items.simps array_items.simps skip_ws_simps json_ws_def dict_of_pairs_def
  match_number_def match_integer_def match_frac_def match_exp_def number_value_def is_digit_def digits_value_def max_str_digits_def
  backslash_def decode_uXXXX_def hex_digit_def py_def

lemma replace_eval:
  "replace (o1 # old) new [] = []"
  "replace (o1 # old) new (c # s) =
     (if prefix (o1 # old) (c # s) then new @ replace (o1 # old) new (drop (length (o1 # old)) (c # s))
      else c # replace (o1 # old) new s)"
  by (simp_all add: replace.simps[of "o1 # old"])

lemma json_str_example: "json_str example_json = example_json"
  unfolding json_str_unstripped
  by (simp add: example_json_def py_def replace_eval strip_def lstrip_def rstrip_def is_space_def)

lemma scan_once_string:
  "scan_once depth (34 # cs) =
     (case scanstring [] cs of Inl e \<Rightarrow> Inl e | Inr (v, rest) \<Rightarrow> Inr (PStr v, rest))"
  by (cases depth) (simp_all add: scan_with_def)

lemma json_loads_example:
  \<open>json_loads (Suc depth) example_json =
     Inr (PDict [(py ''Invoice Number'', PStr (py ''INV-12345'')),
                 (py ''Customer Name'', PStr (py ''John Doe'')),
                 (py ''Total Amount'', PStr (py ''$999.99''))])\<close>
  by (simp add: example_json_def json_eval scan_once_string)

section \<open>Runs of the page\<close>

lemma cached_analyze_miss:
  assumes "cache (cache_key [(''_image'', Arg_image img), (''_placeholders'', Arg_placeholders placeholders)]) = None"
  shows "cached_analyze_document_with_gemini env cache img placeholders =
           (fst (analyze_document_with_gemini env img placeholders),
            snd (analyze_document_with_gemini env img placeholders),
            cache(cache_key [(''_image'', Arg_image img), (''_placeholders'', Arg_placeholders placeholders)]
                    \<mapsto> (fst (analyze_document_with_gemini env img placeholders),
                         filter is_element (snd (analyze_document_with_gemini env img placeholders)))))"
  using assms by (simp add: cached_analyze_document_with_gemini_def Let_def split: prod.splits)

lemma extract_action_pipeline:
  assumes "extract_button inp" "uploaded_file inp = Some pdf_bytes"
    and "placeholders_of (placeholders_text inp) \<noteq> []"
    and "pdf_to_image env pdf_bytes (page_number inp) = (Some img, effects1)"
    and "cached_analyze_document_with_gemini env cache img (placeholders_of (placeholders_text inp))
         = (analysis_result, effects2, cache')"
  shows "extract_action env inp (session, cache) =
           (session\<lparr>image_to_display := Some img, result := analysis_result\<rparr>, cache',
            effects1 @ effects2)"
proof -
  have "placeholders_text inp \<noteq> []"
  proof
    assume "placeholders_text inp = []"
    then have "placeholders_of (placeholders_text inp) = []"
      by (simp add: placeholders_of_def strip_def lstrip_def rstrip_def)
    with assms(3) show False by simp
  qed
  with assms show ?thesis
    by (simp add: extract_action_def Let_def)
qed

lemma extract_action_no_image:
  assumes "extract_button inp" "uploaded_file inp = Some pdf_bytes"
    and "placeholders_of (placeholders_text inp) \<noteq> []"
    and "pdf_to_image env pdf_bytes (page_number inp) = (None, effects1)"
  shows "extract_action env inp (session, cache) =
           (session\<lparr>result := PNone, image_to_display := None\<rparr>, cache, effects1)"
proof -
  have "placeholders_text inp \<noteq> []"
  proof
    assume "placeholders_text inp = []"
    then have "placeholders_of (placeholders_text inp) = []"
      by (simp add: placeholders_of_def strip_def lstrip_def rstrip_def)
    with assms(3) show False by simp
  qed
  with assms show ?thesis
    by (simp add: extract_action_def Let_def)
qed

lemma script_parts:
  "session_after (script env inp sc) = fst (extract_action env inp sc)"
  "cache_after (script env inp sc) = fst (snd (extract_action env inp sc))"
  "effects (script env inp sc) =
     snd (snd (extract_action env inp sc)) @ fst (display_results inp (fst (extract_action env inp sc)))"
  "raised (script env inp sc) = snd (display_results inp (fst (extract_action env inp sc)))"
  by (simp_all add: script_def split: prod.splits)

lemma display_results_None:
  "result session = PNone \<Longrightarrow>
   display_results inp session =
     (if extract_button inp then []
      else [St_info (py ''Upload a PDF and define placeholders in the sidebar to begin.'')], None)"
  by (simp add: display_results_def)


section \<open>The scanner always moves forward\<close>

lemma skip_ws_length: "length (skip_ws s) \<le> length s"
  by (simp add: skip_ws_def length_dropWhile_le)

lemma scanstring_shorter:
  "scanstring chunks s = Inr (v, rest) \<Longrightarrow> length rest < length s"
proof (induction chunks s arbitrary: v rest rule: scanstring.induct)
  case (1 chunks)
  then show ?case by simp
next
  case (2 chunks c cs)
  show ?case
  proof (cases "c = 34")
    case True
    with 2(6) show ?thesis by simp
  next
    case n34: False
    show ?thesis
    proof (cases "c = 92")
      case False
      with n34 2(5)[of v rest] 2(6) show ?thesis
        by (auto split: if_splits)
    next
      case True
      show ?thesis
      proof (cases cs)
        case Nil
        with True n34 2(6) show ?thesis by simp
      next
        case (Cons esc es)
        show ?thesis
        proof (cases "esc = 117")
          case False
          with True n34 Cons 2(1)[of esc es _ v rest] 2(6) show ?thesis
            by (auto split: option.splits)
        next
          case u: True
          show ?thesis
          proof (cases "length es \<le> 4")
            case True
            with u \<open>c = 92\<close> n34 Cons 2(6) show ?thesis by simp
          next
            case long: False
            show ?thesis
            proof (cases "decode_uXXXX es")
              case None
              with u long True n34 Cons 2(6) show ?thesis by simp
            next
              case (Some uni)
              note IH2 = 2(2)[OF n34 True Cons _ long Some, of _ v rest]
              note IH3 = 2(3)[OF n34 True Cons _ long Some, of _ v rest]
              note IH4 = 2(4)[OF n34 True Cons _ long Some, of v rest]
              from u long True n34 Cons Some 2(6) IH2 IH3 IH4 show ?thesis
                by (auto split: if_splits option.splits
                    intro: less_le_trans less_trans
                    dest!: meta_mp)
            qed
          qed
        qed
      qed
    qed
  qed
qed

lemma scanstring_not_stuck:
  "scanstring chunks s \<noteq> Inl NoProgress"
  by (induction chunks s rule: scanstring.induct)
     (auto split: if_splits option.splits list.splits)

lemma match_integer_shorter:
  "match_integer s = Some (neg, integer, r) \<Longrightarrow> length r < length s"
  by (auto simp: match_integer_def Let_def less_Suc_eq_le length_dropWhile_le
      intro: le_trans[OF length_dropWhile_le]
      split: list.splits if_splits)

lemma match_frac_shorter: "match_frac r = (frac, r1) \<Longrightarrow> length r1 \<le> length r"
  by (auto simp: match_frac_def le_Suc_eq length_dropWhile_le
      intro: le_trans[OF length_dropWhile_le]
      split: list.splits if_splits)

lemma match_exp_shorter: "match_exp r = (exp, r1) \<Longrightarrow> length r1 \<le> length r"
  by (auto simp: match_exp_def Let_def le_Suc_eq length_dropWhile_le
      intro: le_trans[OF length_dropWhile_le]
      split: list.splits if_splits)

lemma match_number_shorter:
  "match_number s = Some (m, rest) \<Longrightarrow> length rest < length s"
  by (auto simp: match_number_def split: option.splits prod.splits
      dest!: match_integer_shorter match_frac_shorter match_exp_shorter)

lemma array_items_progress:
  assumes "consumes scan"
  shows "array_items scan vals s \<noteq> Inl NoProgress
       \<and> (\<forall>vs rest. array_items scan vals s = Inr (vs, rest) \<longrightarrow> length rest < length s)"
  using assms
proof (induction scan vals s rule: array_items.induct)
  case (1 scan_once vals s)
  note c = "1.prems"
  show ?case
  proof (cases "scan_once s")
    case (Inl e)
    with c have "e \<noteq> NoProgress" by (auto simp: consumes_def)
    with Inl show ?thesis
      by (subst array_items.simps, subst (2) array_items.simps) simp
  next
    case (Inr p)
    obtain v rest where p: "p = (v, rest)" by (cases p)
    with Inr c have r: "length rest < length s" by (simp add: consumes_def)
    show ?thesis
    proof (cases "skip_ws rest")
      case Nil
      with Inr p show ?thesis
        by (subst array_items.simps, subst (2) array_items.simps) simp
    next
      case (Cons nextchar cs)
      have cs: "length cs < length s"
        using r skip_ws_length[of rest] Cons by simp
      then have "length (skip_ws cs) < length s"
        using skip_ws_length[of cs] by simp
      with "1.IH"[OF Inr p[symmetric] Cons _ _ cs c] Inr p Cons cs show ?thesis
        by (subst array_items.simps, subst (2) array_items.simps) auto
    qed
  qed
qed

lemma object_items_progress:
  assumes "consumes scan"
  shows "object_items scan pairs s \<noteq> Inl NoProgress
       \<and> (\<forall>ps rest. object_items scan pairs s = Inr (ps, rest) \<longrightarrow> length rest < length s)"
  using assms
proof (induction scan pairs s rule: object_items.induct)
  case (1 scan_once pairs s)
  note c = "1.prems"
  show ?case
  proof (cases "scanstring [] s")
    case (Inl e)
    then have "e \<noteq> NoProgress"
      using scanstring_not_stuck[of "[]" s] by auto
    with Inl show ?thesis
      by (subst object_items.simps, subst (2) object_items.simps) simp
  next
    case (Inr p)
    obtain key r1 where p: "p = (key, r1)" by (cases p)
    with Inr have r1: "length r1 < length s" by (simp add: scanstring_shorter)
    show ?thesis
    proof (cases "skip_ws r1")
      case Nil
      with Inr p show ?thesis
        by (subst object_items.simps, subst (2) object_items.simps) simp
    next
      case colon: (Cons colon r2)
      have r2: "length r2 < length s"
        using r1 skip_ws_length[of r1] colon by simp
      show ?thesis
      proof (cases "colon = 58")
        case False
        with Inr p colon show ?thesis
          by (subst object_items.simps, subst (2) object_items.simps) simp
      next
        case True
        show ?thesis
        proof (cases "scan_once (skip_ws r2)")
          case e: (Inl e)
          with c have "e \<noteq> NoProgress" by (auto simp: consumes_def)
          with e Inr p colon True show ?thesis
            by (subst object_items.simps, subst (2) object_items.simps) simp
        next
          case v: (Inr q)
          obtain val r3 where q: "q = (val, r3)" by (cases q)
          with v c have "length r3 < length (skip_ws r2)" by (simp add: consumes_def)
          then have r3: "length r3 < length s"
            using r2 skip_ws_length[of r2] by simp
          show ?thesis
          proof (cases "skip_ws r3")
            case Nil
            with Inr p colon True v q show ?thesis
              by (subst object_items.simps, subst (2) object_items.simps) simp
          next
            case nc: (Cons nextchar r4)
            have r4: "length r4 < length s"
              using r3 skip_ws_length[of r3] nc by simp
            show ?thesis
            proof (cases "skip_ws r4")
              case Nil
              with Inr p colon True v q nc r4 show ?thesis
                by (subst object_items.simps, subst (2) object_items.simps) simp
            next
              case qt: (Cons quote r5)
              have r5: "length r5 < length s"
                using r4 skip_ws_length[of r4] qt by simp
              with "1.IH"[OF Inr p[symmetric] colon _ v q[symmetric] nc _ _ qt _ r5 c]
                Inr p colon True v q nc r4 qt
              show ?thesis
                by (subst object_items.simps, subst (2) object_items.simps) auto
            qed
          qed
        qed
      qed
    qed
  qed
qed

lemma JSONArray_progress:
  assumes "consumes scan"
  shows "JSONArray scan s \<noteq> Inl NoProgress
       \<and> (\<forall>v rest. JSONArray scan s = Inr (v, rest) \<longrightarrow> length rest < length s)"
proof (cases "skip_ws s")
  case Nil
  then show ?thesis by (simp add: JSONArray_def)
next
  case (Cons nextchar cs)
  have "length (nextchar # cs) \<le> length s"
    using skip_ws_length[of s] Cons by simp
  with array_items_progress[OF assms, of "[]" "nextchar # cs"] Cons show ?thesis
    by (auto simp: JSONArray_def split: sum.splits)
qed

lemma JSONObject_progress:
  assumes "consumes scan"
  shows "JSONObject scan s \<noteq> Inl NoProgress
       \<and> (\<forall>v rest. JSONObject scan s = Inr (v, rest) \<longrightarrow> length rest < length s)"
proof (cases "skip_ws s")
  case Nil
  then show ?thesis by (simp add: JSONObject_def)
next
  case (Cons nextchar cs)
  have "length (nextchar # cs) \<le> length s"
    using skip_ws_length[of s] Cons by simp
  with object_items_progress[OF assms, of "[]" cs] Cons show ?thesis
    by (auto simp: JSONObject_def split: sum.splits)
qed

lemma prefix_drop_shorter:
  "prefix p s \<Longrightarrow> p \<noteq> [] \<Longrightarrow> length (drop (length p) s) < length s"
  by (cases s) (auto dest: prefix_length_le)

lemma number_value_not_stuck: "number_value m \<noteq> Inl NoProgress"
  by (auto simp: number_value_def Let_def split: prod.splits)

lemma scan_with_consumes:
  assumes "\<And>scan. nested = Some scan \<Longrightarrow> consumes scan"
  shows "consumes (scan_with nested)"
  unfolding consumes_def
proof (intro conjI allI impI)
  fix s
  show "scan_with nested s \<noteq> Inl NoProgress"
  proof (cases s)
    case Nil
    then show ?thesis by (simp add: scan_with_def)
  next
    case (Cons c cs)
    show ?thesis
    proof (cases nested)
      case None
      with Cons show ?thesis
        using scanstring_not_stuck[of "[]" cs] number_value_not_stuck
        by (auto simp: scan_with_def split: sum.splits option.splits)
    next
      case (Some scan)
      with assms have "consumes scan" by simp
      with Cons Some show ?thesis
        using scanstring_not_stuck[of "[]" cs] number_value_not_stuck
          JSONObject_progress[of scan cs] JSONArray_progress[of scan cs]
        by (auto simp: scan_with_def split: sum.splits option.splits)
    qed
  qed
next
  fix s v rest
  assume a: "scan_with nested s = Inr (v, rest)"
  show "length rest < length s"
  proof (cases s)
    case Nil
    with a show ?thesis by (simp add: scan_with_def)
  next
    case (Cons c cs)
    have lit: "length (drop 4 s) < length s" if "prefix (py ''null'') s \<or> prefix (py ''true'') s"
      using that prefix_drop_shorter[of "py ''null''" s] prefix_drop_shorter[of "py ''true''" s]
      by (auto simp: py_def)
    have lit5: "length (drop 5 s) < length s" if "prefix (py ''false'') s"
      using that prefix_drop_shorter[of "py ''false''" s] by (auto simp: py_def)
    have lit3: "length (drop 3 s) < length s" if "prefix (py ''NaN'') s"
      using that prefix_drop_shorter[of "py ''NaN''" s] by (auto simp: py_def)
    have lit8: "length (drop 8 s) < length s" if "prefix (py ''Infinity'') s"
      using that prefix_drop_shorter[of "py ''Infinity''" s] by (auto simp: py_def)
    have lit9: "length (drop 9 s) < length s" if "prefix (py ''-Infinity'') s"
      using that prefix_drop_shorter[of "py ''-Infinity''" s] by (auto simp: py_def)
    have str: "length r < length s" if "scanstring [] cs = Inr (x, r)" for x r
      using scanstring_shorter[OF that] Cons by simp
    have num: "length r < length s" if "match_number s = Some (m, r)" for m r
      using match_number_shorter[OF that] .
    have obj: "length r < length s" if "nested = Some scan" "JSONObject scan cs = Inr (x, r)" for scan x r
      using JSONObject_progress[OF assms[OF that(1)], of cs] that(2) Cons by auto
    have arr: "length r < length s" if "nested = Some scan" "JSONArray scan cs = Inr (x, r)" for scan x r
      using JSONArray_progress[OF assms[OF that(1)], of cs] that(2) Cons by auto
    from a show ?thesis
      unfolding scan_with_def Cons list.case
      using lit lit5 lit3 lit8 lit9 str num obj arr
      unfolding Cons
      by (auto split: if_splits sum.splits option.splits prod.splits)
  qed
qed

lemma scan_once_consumes: "consumes (scan_once depth)"
proof (induction depth)
  case 0
  show ?case by (simp, rule scan_with_consumes) simp
next
  case (Suc depth)
  then show ?case by (simp, intro scan_with_consumes) simp
qed

text \<open>
  The loops over the items of an array and the members of an object test that the text
  left is shorter than the text they started with; the test never fails, so
  \<open>NoProgress\<close> is not a result of \<open>json_loads\<close>.
\<close>

lemma json_loads_not_stuck: "json_loads depth s \<noteq> Inl NoProgress"
  using scan_once_consumes[of depth]
  by (auto simp: json_loads_def consumes_def split: sum.splits)

section \<open>Code fences around the reply\<close>

lemma match_number_None:
  "c \<noteq> 45 \<Longrightarrow> \<not> is_digit c \<Longrightarrow> match_number (c # cs) = None"
  by (simp add: match_number_def match_integer_def)

lemma scan_with_no_value:
  "scan_with nested (96 # cs) = Inl (JSONDecodeError Expecting_value)"
  "scan_with nested (106 # cs) = Inl (JSONDecodeError Expecting_value)"
  by (simp_all add: scan_with_def match_number_None is_digit_def py_def)

lemma json_text_start:
  assumes "json_loads depth j = Inr v"
  shows "j \<noteq> [] \<and> hd j \<noteq> 96 \<and> hd j \<noteq> 106"
proof (cases j)
  case Nil
  with assms show ?thesis
    by (cases depth) (simp_all add: json_loads_def skip_ws_simps scan_with_def)
next
  case (Cons c cs)
  have "c \<noteq> 96 \<and> c \<noteq> 106"
  proof (rule ccontr)
    assume "\<not> (c \<noteq> 96 \<and> c \<noteq> 106)"
    then have c: "c = 96 \<or> c = 106" by blast
    then have "scan_with nested (c # cs) = Inl (JSONDecodeError Expecting_value)" for nested
      using scan_with_no_value by blast
    then have "scan_once depth (c # cs) = Inl (JSONDecodeError Expecting_value)"
      by (cases depth) simp_all
    moreover have "skip_ws j = j"
      using c Cons by (auto simp: skip_ws_simps json_ws_def)
    ultimately show False
      using assms Cons by (simp add: json_loads_def split: if_splits)
  qed
  with Cons show ?thesis by simp
qed

lemma strip_id:
  assumes "s \<noteq> []" "\<not> is_space (hd s)" "\<not> is_space (last s)"
  shows "strip s = s"
proof -
  have "rstrip s = s"
    using assms(1,3) unfolding rstrip_def
    by (metis dropWhile_eq_self_iff hd_rev rev_rev_ident)
  then show ?thesis
    using assms(1,2) by (simp add: strip_def lstrip_def dropWhile_eq_self_iff)
qed

lemma replace_absent:
  assumes "old \<noteq> []"
  shows "\<not> sublist old s \<Longrightarrow> replace old new s = s"
proof (induction s)
  case Nil
  with assms show ?case by (simp add: replace_Nil)
next
  case (Cons c cs)
  then have "\<not> prefix old (c # cs)" "\<not> sublist old cs"
    by (auto simp: sublist_Cons_right)
  with Cons.IH assms show ?case
    by (simp add: replace_Cons_other)
qed

lemma json_str_plain_text:
  assumes "j \<noteq> []" "\<not> is_space (hd j)" "\<not> is_space (last j)" "\<not> sublist (py ''```'') j"
  shows "json_str j = j"
proof -
  have "\<not> sublist (py ''```json'') j"
  proof
    assume "sublist (py ''```json'') j"
    then obtain ps ss where "j = ps @ py ''```json'' @ ss"
      by (auto simp: sublist_def)
    then have "j = ps @ py ''```'' @ ([106, 115, 111, 110] @ ss)"
      by (simp add: fence_codes fence_json_codes)
    then have "sublist (py ''```'') j"
      unfolding sublist_def by blast
    with assms(4) show False by simp
  qed
  then have "replace (py ''```json'') [] j = j"
    by (intro replace_absent) (simp add: fence_json_codes)
  moreover have "replace (py ''```'') [] j = j"
    using assms(4) by (intro replace_absent) (simp add: fence_codes)
  ultimately show ?thesis
    by (simp add: json_str_def strip_id[OF assms(1-3)])
qed


text \<open>
  C3. For every JSON text j: a reply that is j between an opening code fence, plain or
  with the word json, and a closing code fence, with any white space between the fences
  and j, is cleaned to the same string as the reply j, and the helper returns for it
  exactly what it returns for j. When j itself holds no code fence and has no white
  space at its ends, what the helper returns for the fenced reply is the value j parses
  to.
\<close>

theorem fenced_reply_parses_like_bare_reply:
  assumes "json_loads (recursion_depth env) j = Inr v"
    and "opener = py ''```'' \<or> opener = py ''```json''"
    and "\<forall>c \<in> set w1. is_space c" and "\<forall>c \<in> set w2. is_space c"
  shows "json_str (opener @ w1 @ j @ w2 @ py ''```'') = json_str j
       \<and> analyze_document_with_gemini
           (env\<lparr>generate_content := \<lambda>prompt img. Inr (opener @ w1 @ j @ w2 @ py ''```'')\<rparr>)
           img placeholders
         = analyze_document_with_gemini
           (env\<lparr>generate_content := \<lambda>prompt img. Inr j\<rparr>) img placeholders
       \<and> (\<not> sublist (py ''```'') j \<and> \<not> is_space (hd j) \<and> \<not> is_space (last j) \<longrightarrow>
            analyze_document_with_gemini
              (env\<lparr>generate_content := \<lambda>prompt img. Inr (opener @ w1 @ j @ w2 @ py ''```'')\<rparr>)
              img placeholders
            = (v, [Call_generate_content (prompt placeholders) img]))"
proof -
  have start: "j \<noteq> []" "hd j \<noteq> 96" "hd j \<noteq> 106"
    using json_text_start[OF assms(1)] by simp_all
  have inner: "json_str (w1 @ j @ w2) = json_str j"
    by (rule json_str_spaces[OF assms(3,4)])
  have "w1 @ j @ w2 = [] \<or> (hd (w1 @ j @ w2) \<noteq> 96 \<and> hd (w1 @ j @ w2) \<noteq> 106)"
  proof (cases w1)
    case Nil
    with start show ?thesis by simp
  next
    case (Cons c cs)
    with assms(3) have "is_space c" by simp
    then have "c \<noteq> 96 \<and> c \<noteq> 106" by (auto simp: is_space_def)
    with Cons show ?thesis by simp
  qed
  then have "json_str (py ''```'' @ (w1 @ j @ w2) @ py ''```'') = json_str (w1 @ j @ w2)"
    by (rule json_str_fence)
  moreover have "json_str (py ''```json'' @ (w1 @ j @ w2) @ py ''```'') = json_str (w1 @ j @ w2)"
    by (rule json_str_fence_json)
  ultimately have eq: "json_str (opener @ w1 @ j @ w2 @ py ''```'') = json_str j"
    using assms(2) inner by auto
  have "analyze_document_with_gemini
          (env\<lparr>generate_content := \<lambda>prompt img. Inr (opener @ w1 @ j @ w2 @ py ''```'')\<rparr>)
          img placeholders
        = (v, [Call_generate_content (prompt placeholders) img])"
    if "\<not> sublist (py ''```'') j" "\<not> is_space (hd j)" "\<not> is_space (last j)"
  proof -
    have "json_str j = j"
      using start(1) that by (intro json_str_plain_text) simp_all
    with eq assms(1) show ?thesis
      by (simp add: analyze_document_with_gemini_def)
  qed
  with eq show ?thesis
    by (simp add: analyze_document_with_gemini_def)
qed

theorem fenced_reply_witness:
  \<open>json_loads (recursion_depth example_env) (py ''{"Total": "7"}'')
     = Inr (PDict [(py ''Total'', PStr (py ''7''))])
   \<and> \<not> sublist (py ''```'') (py ''{"Total": "7"}'')
   \<and> \<not> is_space (hd (py ''{"Total": "7"}'')) \<and> \<not> is_space (last (py ''{"Total": "7"}''))
   \<and> json_str (py ''```json'' @ [10] @ py ''{"Total": "7"}'' @ [10] @ py ''```'')
       = json_str (py ''{"Total": "7"}'')
   \<and> analyze_document_with_gemini
        (example_env\<lparr>generate_content :=
           \<lambda>prompt img. Inr (py ''```json'' @ [10] @ py ''{"Total": "7"}'' @ [10] @ py ''```'')\<rparr>)
        0 [py ''Total'']
      = (PDict [(py ''Total'', PStr (py ''7''))], [Call_generate_content (prompt [py ''Total'']) 0])
   \<and> analyze_document_with_gemini
        (example_env\<lparr>generate_content := \<lambda>prompt img. Inr (py ''{"Total": "7"}'')\<rparr>)
        0 [py ''Total'']
      = (PDict [(py ''Total'', PStr (py ''7''))], [Call_generate_content (prompt [py ''Total'']) 0])\<close>
proof -
  have j: \<open>json_loads (recursion_depth example_env) (py ''{"Total": "7"}'')
     = Inr (PDict [(py ''Total'', PStr (py ''7''))])\<close>
    by (simp add: example_env_def json_eval)
  have sp: "\<forall>c \<in> set [10]. is_space c" by (simp add: is_space_def)
  have plain: \<open>\<not> sublist (py ''```'') (py ''{"Total": "7"}'')\<close>
    \<open>\<not> is_space (hd (py ''{"Total": "7"}''))\<close> \<open>\<not> is_space (last (py ''{"Total": "7"}''))\<close>
    by (simp_all add: py_def is_space_def sublist_Cons_right)
  note t = fenced_reply_parses_like_bare_reply[OF j _ sp sp, of "py ''```json''" 0 "[py ''Total'']"]
  have o: "py ''```json'' = py ''```'' \<or> py ''```json'' = py ''```json''" by simp
  note t1 = t[OF o, THEN conjunct1]
  note eq = t[OF o, THEN conjunct2, THEN conjunct1]
  have t3: \<open>analyze_document_with_gemini
        (example_env\<lparr>generate_content :=
           \<lambda>prompt img. Inr (py ''```json'' @ [10] @ py ''{"Total": "7"}'' @ [10] @ py ''```'')\<rparr>)
        0 [py ''Total'']
      = (PDict [(py ''Total'', PStr (py ''7''))], [Call_generate_content (prompt [py ''Total'']) 0])\<close>
    using t[OF o, THEN conjunct2, THEN conjunct2] plain by blast
  note t2 = trans[OF eq[symmetric] t3]
  show ?thesis
    using j plain t1 t2 t3 by blast
qed

section \<open>The helper on the example reply\<close>

text \<open>
  C4. When the model answers with exactly the example JSON text of the prompt, the helper
  returns the dict with the three example fields and their example values. The text is
  part of the prompt whatever the fields are; the interpreter must have room to enter
  one container.
\<close>

theorem example_reply_parses_to_example_mapping:
  assumes "generate_content env (prompt placeholders) img = Inr example_json"
    and "0 < recursion_depth env"
  shows \<open>sublist example_json (prompt placeholders)
       \<and> fst (analyze_document_with_gemini env img placeholders) =
           PDict [(py ''Invoice Number'', PStr (py ''INV-12345'')),
                  (py ''Customer Name'', PStr (py ''John Doe'')),
                  (py ''Total Amount'', PStr (py ''$999.99''))]\<close>
proof -
  have "sublist example_json (prompt placeholders)"
    unfolding prompt_def Let_def by (fast intro: sublist_here sublist_skip)
  moreover obtain depth where "recursion_depth env = Suc depth"
    using assms(2) by (cases "recursion_depth env") simp_all
  then have "fst (analyze_document_with_gemini env img placeholders) =
           PDict [(py ''Invoice Number'', PStr (py ''INV-12345'')),
                  (py ''Customer Name'', PStr (py ''John Doe'')),
                  (py ''Total Amount'', PStr (py ''$999.99''))]"
    using assms(1) by (simp add: analyze_document_with_gemini_def json_str_example json_loads_example)
  ultimately show ?thesis by simp
qed

theorem example_reply_witness:
  \<open>generate_content example_env (prompt [py ''Invoice Number'']) 0 = Inr example_json
   \<and> 0 < recursion_depth example_env
   \<and> sublist example_json (prompt [py ''Invoice Number''])
   \<and> fst (analyze_document_with_gemini example_env 0 [py ''Invoice Number'']) =
           PDict [(py ''Invoice Number'', PStr (py ''INV-12345'')),
                  (py ''Customer Name'', PStr (py ''John Doe'')),
                  (py ''Total Amount'', PStr (py ''$999.99''))]\<close>
proof -
  have g: "generate_content example_env (prompt [py ''Invoice Number'']) 0 = Inr example_json"
    by (simp add: example_env_def)
  have d: "0 < recursion_depth example_env"
    by (simp add: example_env_def)
  show ?thesis
    using g d example_reply_parses_to_example_mapping[OF g d] by simp
qed

section \<open>Failed extraction\<close>

lemma placeholders_of_example:
  "placeholders_of (placeholders_text example_inputs) = [py ''Invoice Number'', py ''Total Amount'']"
  by (simp add: example_inputs_def placeholders_of_def py_def strip_def lstrip_def rstrip_def is_space_def)

lemma json_str_prose: "json_str (py ''I could not read the document.'') = py ''I could not read the document.''"
  unfolding json_str_unstripped
  by (simp add: py_def replace_eval strip_def lstrip_def rstrip_def is_space_def)

lemma json_loads_prose:
  "json_loads 100 (py ''I could not read the document.'') = Inl (JSONDecodeError Expecting_value)"
  by (simp add: json_eval)

text \<open>
  C2. When the call of the model raises, or the reply, once cleaned, is not valid JSON,
  the helper returns None and shows the exception in an error element; the run of the
  page then stores None as result, shows that error and ends without raising. The run is
  one where the body of the helper is executed, that is the cache has no entry yet.
\<close>

theorem failed_extraction_is_reported:
  assumes "generate_content env (prompt placeholders) img = Inl e
         \<or> (\<exists>text. generate_content env (prompt placeholders) img = Inr text
                  \<and> json_loads (recursion_depth env) (json_str text) = Inl e)"
    and "extract_button inp" and "uploaded_file inp = Some pdf_bytes"
    and "placeholders_of (placeholders_text inp) = placeholders" and "placeholders \<noteq> []"
    and "pdf_to_image env pdf_bytes (page_number inp) = (Some img, effects1)"
    and "cache (cache_key [(''_image'', Arg_image img), (''_placeholders'', Arg_placeholders placeholders)]) = None"
  shows "analyze_document_with_gemini env img placeholders =
           (PNone, [Call_generate_content (prompt placeholders) img,
                    St_error (py ''Error during AI analysis: '') e])
       \<and> result (session_after (script env inp (session, cache))) = PNone
       \<and> effects (script env inp (session, cache)) =
           effects1 @ [Call_generate_content (prompt placeholders) img,
                       St_error (py ''Error during AI analysis: '') e]
       \<and> raised (script env inp (session, cache)) = None"
proof -
  have a: "analyze_document_with_gemini env img placeholders =
           (PNone, [Call_generate_content (prompt placeholders) img,
                    St_error (py ''Error during AI analysis: '') e])"
    using assms(1) by (auto simp: analyze_document_with_gemini_def)
  have "cached_analyze_document_with_gemini env cache img (placeholders_of (placeholders_text inp))
        = (PNone, [Call_generate_content (prompt placeholders) img,
                    St_error (py ''Error during AI analysis: '') e],
           cache(cache_key [(''_image'', Arg_image img), (''_placeholders'', Arg_placeholders placeholders)]
                    \<mapsto> (PNone, [St_error (py ''Error during AI analysis: '') e])))"
    using cached_analyze_miss[of cache img placeholders env] assms(7) a assms(4) by simp
  then have x: "extract_action env inp (session, cache) =
           (session\<lparr>image_to_display := Some img, result := PNone\<rparr>,
            cache(cache_key [(''_image'', Arg_image img), (''_placeholders'', Arg_placeholders placeholders)]
                    \<mapsto> (PNone, [St_error (py ''Error during AI analysis: '') e])),
            effects1 @ [Call_generate_content (prompt placeholders) img,
                    St_error (py ''Error during AI analysis: '') e])"
    using assms(2-6) by (intro extract_action_pipeline) simp_all
  show ?thesis
    using a assms(2) by (simp add: script_parts x display_results_None)
qed

theorem failed_extraction_witness:
  "generate_content prose_env (prompt [py ''Invoice Number'', py ''Total Amount'']) 0
     = Inr (py ''I could not read the document.'')
   \<and> json_loads (recursion_depth prose_env) (json_str (py ''I could not read the document.''))
     = Inl (JSONDecodeError Expecting_value)
   \<and> analyze_document_with_gemini prose_env 0 [py ''Invoice Number'', py ''Total Amount''] =
       (PNone, [Call_generate_content (prompt [py ''Invoice Number'', py ''Total Amount'']) 0,
                St_error (py ''Error during AI analysis: '') (JSONDecodeError Expecting_value)])
   \<and> result (session_after (script prose_env example_inputs (initial_session_state, Map.empty))) = PNone
   \<and> effects (script prose_env example_inputs (initial_session_state, Map.empty)) =
       [Call_convert_from_bytes ''%PDF-1.4'' 1 1,
        Call_generate_content (prompt [py ''Invoice Number'', py ''Total Amount'']) 0,
        St_error (py ''Error during AI analysis: '') (JSONDecodeError Expecting_value)]
   \<and> raised (script prose_env example_inputs (initial_session_state, Map.empty)) = None"
proof -
  have g: "generate_content prose_env (prompt [py ''Invoice Number'', py ''Total Amount'']) 0
     = Inr (py ''I could not read the document.'')"
    by (simp add: prose_env_def)
  have l: "json_loads (recursion_depth prose_env) (json_str (py ''I could not read the document.''))
     = Inl (JSONDecodeError Expecting_value)"
    by (simp add: json_str_prose json_loads_prose prose_env_def)
  have p: "pdf_to_image prose_env ''%PDF-1.4'' (page_number example_inputs)
           = (Some 0, [Call_convert_from_bytes ''%PDF-1.4'' 1 1])"
    by (simp add: pdf_to_image_def prose_env_def page_number_def example_inputs_def)
  have h: "generate_content prose_env (prompt [py ''Invoice Number'', py ''Total Amount'']) 0
             = Inl (JSONDecodeError Expecting_value)
         \<or> (\<exists>text. generate_content prose_env (prompt [py ''Invoice Number'', py ''Total Amount'']) 0 = Inr text
                  \<and> json_loads (recursion_depth prose_env) (json_str text) = Inl (JSONDecodeError Expecting_value))"
    using g l by blast
  show ?thesis
    using g l failed_extraction_is_reported[OF h _ _ placeholders_of_example _ p,
        of Map.empty initial_session_state]
    by (simp add: example_inputs_def)
qed

section \<open>Replies that are JSON but no object\<close>





section \<open>What a failed action leaves in the session\<close>

lemma cached_analyze_prose:
  "fst (cached_analyze_document_with_gemini prose_env Map.empty 0
          [py ''Invoice Number'', py ''Total Amount'']) = PNone"
  by (simp add: cached_analyze_miss cache_key_def analyze_document_with_gemini_def prose_env_def
      json_str_prose json_loads_prose)

text \<open>
  C10. An action that reaches the pipeline (button pressed, file uploaded, at least one
  field) and fails overwrites the session: when no image comes back, the stored result
  and the stored image both become None; when an image comes back and the helper returns
  None, the stored result becomes None and the stored image the new image. Whatever
  the session held before is gone.
\<close>

theorem failed_action_overwrites_stored_result:
  assumes "extract_button inp" and "uploaded_file inp = Some pdf_bytes"
    and "placeholders_of (placeholders_text inp) \<noteq> []"
  shows "(fst (pdf_to_image env pdf_bytes (page_number inp)) = None \<longrightarrow>
            session_after (script env inp (session, cache))
              = session\<lparr>result := PNone, image_to_display := None\<rparr>)
       \<and> (\<forall>img. fst (pdf_to_image env pdf_bytes (page_number inp)) = Some img
              \<and> fst (cached_analyze_document_with_gemini env cache img
                        (placeholders_of (placeholders_text inp))) = PNone \<longrightarrow>
            session_after (script env inp (session, cache))
              = session\<lparr>image_to_display := Some img, result := PNone\<rparr>)"
proof (intro conjI impI allI)
  assume "fst (pdf_to_image env pdf_bytes (page_number inp)) = None"
  then have "pdf_to_image env pdf_bytes (page_number inp)
             = (None, snd (pdf_to_image env pdf_bytes (page_number inp)))"
    by (metis prod.collapse)
  from extract_action_no_image[OF assms this]
  show "session_after (script env inp (session, cache))
          = session\<lparr>result := PNone, image_to_display := None\<rparr>"
    by (simp add: script_parts)
next
  fix img
  assume a: "fst (pdf_to_image env pdf_bytes (page_number inp)) = Some img
     \<and> fst (cached_analyze_document_with_gemini env cache img
               (placeholders_of (placeholders_text inp))) = PNone"
  then have p: "pdf_to_image env pdf_bytes (page_number inp)
             = (Some img, snd (pdf_to_image env pdf_bytes (page_number inp)))"
    by (metis prod.collapse)
  obtain e2 c' where "cached_analyze_document_with_gemini env cache img
               (placeholders_of (placeholders_text inp)) = (PNone, e2, c')"
    using a by (metis prod.collapse)
  from extract_action_pipeline[OF assms p this]
  show "session_after (script env inp (session, cache))
          = session\<lparr>image_to_display := Some img, result := PNone\<rparr>"
    by (simp add: script_parts)
qed

theorem failed_action_witness:
  "extract_button example_inputs
   \<and> uploaded_file example_inputs = Some ''%PDF-1.4''
   \<and> placeholders_of (placeholders_text example_inputs) \<noteq> []
   \<and> fst (pdf_to_image one_page_env ''%PDF-1.4'' (page_number (example_inputs\<lparr>number_input := 2\<rparr>))) = None
   \<and> session_after (script one_page_env (example_inputs\<lparr>number_input := 2\<rparr>) (earlier_session, Map.empty))
       = earlier_session\<lparr>result := PNone, image_to_display := None\<rparr>
   \<and> fst (pdf_to_image prose_env ''%PDF-1.4'' (page_number example_inputs)) = Some 0
   \<and> fst (cached_analyze_document_with_gemini prose_env Map.empty 0
          (placeholders_of (placeholders_text example_inputs))) = PNone
   \<and> session_after (script prose_env example_inputs (earlier_session, Map.empty))
       = earlier_session\<lparr>image_to_display := Some 0, result := PNone\<rparr>"
proof -
  have b: "extract_button example_inputs" "uploaded_file example_inputs = Some ''%PDF-1.4''"
    by (simp_all add: example_inputs_def)
  have ps: "placeholders_of (placeholders_text example_inputs) \<noteq> []"
    by (simp add: placeholders_of_example)
  have b2: "extract_button (example_inputs\<lparr>number_input := 2\<rparr>)"
    "uploaded_file (example_inputs\<lparr>number_input := 2\<rparr>) = Some ''%PDF-1.4''"
    "placeholders_of (placeholders_text (example_inputs\<lparr>number_input := 2\<rparr>)) \<noteq> []"
    using b ps by simp_all
  have r: "fst (pdf_to_image one_page_env ''%PDF-1.4'' (page_number (example_inputs\<lparr>number_input := 2\<rparr>))) = None"
    by (simp add: pdf_to_image_def one_page_env_def page_number_def example_inputs_def)
  have i: "fst (pdf_to_image prose_env ''%PDF-1.4'' (page_number example_inputs)) = Some 0"
    by (simp add: pdf_to_image_def prose_env_def page_number_def example_inputs_def)
  have a: "fst (cached_analyze_document_with_gemini prose_env Map.empty 0
          (placeholders_of (placeholders_text example_inputs))) = PNone"
    by (simp add: placeholders_of_example cached_analyze_prose)
  show ?thesis
    using b ps r i a
      failed_action_overwrites_stored_result[OF b2, of one_page_env earlier_session Map.empty]
      failed_action_overwrites_stored_result[OF b ps, of prose_env earlier_session Map.empty]
    by simp
qed

section \<open>The page that is rasterized\<close>

text \<open>
  C8. With a file uploaded, the page number is the number of the 1-based selector minus
  one; \<^verbatim>\<open>pdf_to_image\<close> asks the backend once, for the range from that page to that page
  counted from 1, which is the selector's number again, and of the images that come back
  it returns the first; in a run that reaches the pipeline this first image is the one
  stored.
\<close>

theorem selected_page_is_rasterized:
  assumes "uploaded_file inp = Some pdf_bytes"
    and "convert_from_bytes env pdf_bytes (number_input inp) (number_input inp) = Inr (img # others)"
  shows "page_number inp = number_input inp - 1
       \<and> pdf_to_image env pdf_bytes (page_number inp) =
           (Some img, [Call_convert_from_bytes pdf_bytes (number_input inp) (number_input inp)])
       \<and> (extract_button inp \<and> placeholders_of (placeholders_text inp) \<noteq> [] \<longrightarrow>
            image_to_display (session_after (script env inp (session, cache))) = Some img
            \<and> take 1 (effects (script env inp (session, cache))) =
                [Call_convert_from_bytes pdf_bytes (number_input inp) (number_input inp)])"
proof -
  have n: "page_number inp = number_input inp - 1"
    using assms(1) by (simp add: page_number_def)
  have p: "pdf_to_image env pdf_bytes (page_number inp) =
           (Some img, [Call_convert_from_bytes pdf_bytes (number_input inp) (number_input inp)])"
    using assms(2) by (simp add: pdf_to_image_def n)
  have "image_to_display (session_after (script env inp (session, cache))) = Some img
        \<and> take 1 (effects (script env inp (session, cache))) =
                [Call_convert_from_bytes pdf_bytes (number_input inp) (number_input inp)]"
    if b: "extract_button inp" and ps: "placeholders_of (placeholders_text inp) \<noteq> []"
  proof -
    obtain r e2 c' where "cached_analyze_document_with_gemini env cache img
               (placeholders_of (placeholders_text inp)) = (r, e2, c')"
      by (metis prod.collapse)
    from extract_action_pipeline[OF b assms(1) ps p this]
    show ?thesis by (simp add: script_parts)
  qed
  with n p show ?thesis by blast
qed

theorem selected_page_witness:
  "uploaded_file (example_inputs\<lparr>number_input := 2\<rparr>) = Some ''%PDF-1.4''
   \<and> convert_from_bytes two_replies_env ''%PDF-1.4'' (number_input (example_inputs\<lparr>number_input := 2\<rparr>))
        (number_input (example_inputs\<lparr>number_input := 2\<rparr>)) = Inr [2, 0]
   \<and> page_number (example_inputs\<lparr>number_input := 2\<rparr>) = 1
   \<and> pdf_to_image two_replies_env ''%PDF-1.4'' (page_number (example_inputs\<lparr>number_input := 2\<rparr>))
       = (Some 2, [Call_convert_from_bytes ''%PDF-1.4'' 2 2])
   \<and> image_to_display (session_after
        (script two_replies_env (example_inputs\<lparr>number_input := 2\<rparr>) (initial_session_state, Map.empty)))
       = Some 2"
proof -
  have u: "uploaded_file (example_inputs\<lparr>number_input := 2\<rparr>) = Some ''%PDF-1.4''"
    by (simp add: example_inputs_def)
  have c: "convert_from_bytes two_replies_env ''%PDF-1.4'' (number_input (example_inputs\<lparr>number_input := 2\<rparr>))
        (number_input (example_inputs\<lparr>number_input := 2\<rparr>)) = Inr (2 # [0])"
    by (simp add: two_replies_env_def)
  have b: "extract_button (example_inputs\<lparr>number_input := 2\<rparr>)"
    "placeholders_of (placeholders_text (example_inputs\<lparr>number_input := 2\<rparr>)) \<noteq> []"
    by (simp_all add: placeholders_of_example) (simp add: example_inputs_def)
  note t = selected_page_is_rasterized[OF u c, of initial_session_state Map.empty]
  have t1: "page_number (example_inputs\<lparr>number_input := 2\<rparr>) = 1"
    using t[THEN conjunct1] by simp
  note t2 = t[THEN conjunct2, THEN conjunct1]
  have t3: "image_to_display (session_after
        (script two_replies_env (example_inputs\<lparr>number_input := 2\<rparr>) (initial_session_state, Map.empty)))
       = Some 2"
    using t[THEN conjunct2, THEN conjunct2] b by simp
  show ?thesis
    using u c t1 t2 t3 by simp
qed

section \<open>Failed rasterization\<close>

text \<open>
  C5 as stated does not hold. For page 2 of a document of one page the backend returns
  no image and raises nothing: \<^verbatim>\<open>pdf_to_image\<close> returns None, and the run shows no message
  and prints nothing, so no cause reaches the user.
\<close>

theorem missing_page_is_not_reported:
  "fst (pdf_to_image one_page_env ''%PDF-1.4'' (page_number (example_inputs\<lparr>number_input := 2\<rparr>))) = None
   \<and> effects (script one_page_env (example_inputs\<lparr>number_input := 2\<rparr>) (initial_session_state, Map.empty))
       = [Call_convert_from_bytes ''%PDF-1.4'' 2 2]"
proof -
  have p: "pdf_to_image one_page_env ''%PDF-1.4'' (page_number (example_inputs\<lparr>number_input := 2\<rparr>))
           = (None, [Call_convert_from_bytes ''%PDF-1.4'' 2 2])"
    by (simp add: pdf_to_image_def one_page_env_def page_number_def example_inputs_def)
  have "extract_action one_page_env (example_inputs\<lparr>number_input := 2\<rparr>) (initial_session_state, Map.empty)
        = (initial_session_state\<lparr>result := PNone, image_to_display := None\<rparr>, Map.empty,
           [Call_convert_from_bytes ''%PDF-1.4'' 2 2])"
    by (rule extract_action_no_image[OF _ _ _ p])
       (simp_all add: placeholders_of_example, simp_all add: example_inputs_def)
  then show ?thesis
    using p by (simp add: script_parts display_results_None) (simp add: example_inputs_def)
qed

text \<open>
  C5, amended. When the backend raises or returns no image, \<^verbatim>\<open>pdf_to_image\<close> returns None,
  the run sets the stored result and the stored image to None, leaves the cache as it
  is, ends without raising and calls nothing but the backend: the model is not called.
  When the backend returns no image, the call of the backend is all the run does.
\<close>

theorem failed_rasterization_stops_the_pipeline:
  assumes "extract_button inp" and "uploaded_file inp = Some pdf_bytes"
    and "placeholders_of (placeholders_text inp) \<noteq> []"
    and "convert_from_bytes env pdf_bytes (page_number inp + 1) (page_number inp + 1) = Inl e
       \<or> convert_from_bytes env pdf_bytes (page_number inp + 1) (page_number inp + 1) = Inr []"
  shows "fst (pdf_to_image env pdf_bytes (page_number inp)) = None
       \<and> session_after (script env inp (session, cache)) = session\<lparr>result := PNone, image_to_display := None\<rparr>
       \<and> cache_after (script env inp (session, cache)) = cache
       \<and> filter is_call (effects (script env inp (session, cache))) =
           [Call_convert_from_bytes pdf_bytes (page_number inp + 1) (page_number inp + 1)]
       \<and> raised (script env inp (session, cache)) = None
       \<and> (convert_from_bytes env pdf_bytes (page_number inp + 1) (page_number inp + 1) = Inr [] \<longrightarrow>
            effects (script env inp (session, cache)) =
              [Call_convert_from_bytes pdf_bytes (page_number inp + 1) (page_number inp + 1)])"
proof -
  let ?call = "Call_convert_from_bytes pdf_bytes (page_number inp + 1) (page_number inp + 1)"
  from assms(4) obtain rest where
    p: "pdf_to_image env pdf_bytes (page_number inp) = (None, ?call # rest)"
    and rest: "filter is_call rest = []"
    and empty: "convert_from_bytes env pdf_bytes (page_number inp + 1) (page_number inp + 1) = Inr []
                \<longrightarrow> rest = []"
    by (auto simp: pdf_to_image_def)
  have x: "extract_action env inp (session, cache) =
           (session\<lparr>result := PNone, image_to_display := None\<rparr>, cache, ?call # rest)"
    by (rule extract_action_no_image[OF assms(1-3) p])
  show ?thesis
    using p rest empty assms(1) by (simp add: script_parts x display_results_None)
qed

theorem failed_rasterization_witness:
  "extract_button (example_inputs\<lparr>number_input := 2\<rparr>)
   \<and> uploaded_file (example_inputs\<lparr>number_input := 2\<rparr>) = Some ''%PDF-1.4''
   \<and> placeholders_of (placeholders_text (example_inputs\<lparr>number_input := 2\<rparr>)) \<noteq> []
   \<and> convert_from_bytes one_page_env ''%PDF-1.4'' 2 2 = Inr []
   \<and> fst (pdf_to_image one_page_env ''%PDF-1.4'' 1) = None
   \<and> session_after (script one_page_env (example_inputs\<lparr>number_input := 2\<rparr>) (earlier_session, Map.empty))
       = earlier_session\<lparr>result := PNone, image_to_display := None\<rparr>
   \<and> filter is_call (effects (script one_page_env (example_inputs\<lparr>number_input := 2\<rparr>) (earlier_session, Map.empty)))
       = [Call_convert_from_bytes ''%PDF-1.4'' 2 2]
   \<and> raised (script one_page_env (example_inputs\<lparr>number_input := 2\<rparr>) (earlier_session, Map.empty)) = None"
proof -
  let ?inp = "example_inputs\<lparr>number_input := 2\<rparr>"
  have b: "extract_button ?inp" "uploaded_file ?inp = Some ''%PDF-1.4''"
    by (simp_all add: example_inputs_def)
  have ps: "placeholders_of (placeholders_text ?inp) \<noteq> []"
    by (simp add: placeholders_of_example)
  have n: "page_number ?inp = 1"
    by (simp add: page_number_def example_inputs_def)
  have c: "convert_from_bytes one_page_env ''%PDF-1.4'' 2 2 = Inr []"
    by (simp add: one_page_env_def)
  then have h: "convert_from_bytes one_page_env ''%PDF-1.4'' (page_number ?inp + 1) (page_number ?inp + 1) = Inl undefined
       \<or> convert_from_bytes one_page_env ''%PDF-1.4'' (page_number ?inp + 1) (page_number ?inp + 1) = Inr []"
    by (simp add: n)
  show ?thesis
    using b ps c n failed_rasterization_stops_the_pipeline[OF b ps h, of earlier_session Map.empty]
    by simp
qed

section \<open>An empty list of fields\<close>

lemma empty_field_list_calls_nothing:
  assumes "placeholders_of (placeholders_text inp) = []"
  shows "filter is_call (effects (script env inp (session, cache))) = []"
proof -
  have "snd (snd (extract_action env inp (session, cache))) = []
        \<or> snd (snd (extract_action env inp (session, cache)))
            = [St_warning (py ''Please define at least one placeholder.'')]"
    using assms by (simp add: extract_action_def split: option.splits)
  moreover have "filter is_call (fst (display_results inp s)) = []" for s :: "'a session_state"
    by (cases "result s") (auto simp: display_results_def filter_empty_conv split: option.splits)
  ultimately show ?thesis
    by (auto simp: script_parts)
qed

text \<open>
  With the button pressed, a file uploaded and the text area empty, the
  list of fields is empty and the run does nothing at all: it shows no warning. With a
  text area of two blanks the list of fields is empty as well, and the run shows the
  warning of line 135.
\<close>

lemma empty_text_shows_nothing:
  "placeholders_of (placeholders_text (example_inputs\<lparr>placeholders_text := []\<rparr>)) = []
   \<and> effects (script example_env (example_inputs\<lparr>placeholders_text := []\<rparr>) (initial_session_state, Map.empty)) = []
   \<and> placeholders_of (placeholders_text (example_inputs\<lparr>placeholders_text := py ''  ''\<rparr>)) = []
   \<and> effects (script example_env (example_inputs\<lparr>placeholders_text := py ''  ''\<rparr>) (initial_session_state, Map.empty))
       = [St_warning (py ''Please define at least one placeholder.'')]"
  by (simp add: script_parts extract_action_def display_results_def example_inputs_def
      initial_session_state_def placeholders_of_def py_def strip_def lstrip_def rstrip_def is_space_def)

lemma display_results_shows_no_warning:
  "St_warning w \<notin> set (fst (display_results inp s))"
  by (cases "result s") (auto simp: display_results_def split: option.splits)

text \<open>
  C6 as stated does not hold. With the button pressed, no file uploaded and a text area
  of two blanks, the list of fields is empty and the run does nothing at all: it shows
  no warning.
\<close>

theorem no_file_gives_no_warning:
  "placeholders_of (placeholders_text (example_inputs\<lparr>uploaded_file := None, placeholders_text := py ''  ''\<rparr>)) = []
   \<and> effects (script example_env (example_inputs\<lparr>uploaded_file := None, placeholders_text := py ''  ''\<rparr>)
        (initial_session_state, Map.empty)) = []"
  by (simp add: script_parts extract_action_def display_results_def example_inputs_def
      initial_session_state_def placeholders_of_def py_def strip_def lstrip_def rstrip_def is_space_def)

text \<open>
  C6, amended. When the list of fields is empty, a run calls neither the backend nor the
  model and leaves the session and the cache as they are. It shows the warning when the
  button is pressed, a file is uploaded and the text area is not empty, and shows no
  warning without a file.
\<close>

theorem empty_field_list_starts_nothing:
  assumes "placeholders_of (placeholders_text inp) = []"
  shows "filter is_call (effects (script env inp (session, cache))) = []
       \<and> session_after (script env inp (session, cache)) = session
       \<and> cache_after (script env inp (session, cache)) = cache
       \<and> (extract_button inp \<and> uploaded_file inp \<noteq> None \<and> placeholders_text inp \<noteq> [] \<longrightarrow>
            St_warning (py ''Please define at least one placeholder.'')
              \<in> set (effects (script env inp (session, cache))))
       \<and> (uploaded_file inp = None \<longrightarrow>
            St_warning (py ''Please define at least one placeholder.'')
              \<notin> set (effects (script env inp (session, cache))))"
proof -
  have x: "extract_action env inp (session, cache) =
        (session, cache,
         if extract_button inp \<and> uploaded_file inp \<noteq> None \<and> placeholders_text inp \<noteq> []
         then [St_warning (py ''Please define at least one placeholder.'')] else [])"
    using assms by (auto simp: extract_action_def split: option.splits)
  show ?thesis
    using empty_field_list_calls_nothing[OF assms, of env session cache]
      display_results_shows_no_warning[of _ inp session]
    by (simp add: script_parts x)
qed

theorem empty_field_list_witness:
  "placeholders_of (placeholders_text (example_inputs\<lparr>placeholders_text := py ''  ''\<rparr>)) = []
   \<and> extract_button (example_inputs\<lparr>placeholders_text := py ''  ''\<rparr>)
   \<and> uploaded_file (example_inputs\<lparr>placeholders_text := py ''  ''\<rparr>) \<noteq> None
   \<and> placeholders_text (example_inputs\<lparr>placeholders_text := py ''  ''\<rparr>) \<noteq> []
   \<and> filter is_call (effects (script example_env (example_inputs\<lparr>placeholders_text := py ''  ''\<rparr>)
        (earlier_session, Map.empty))) = []
   \<and> session_after (script example_env (example_inputs\<lparr>placeholders_text := py ''  ''\<rparr>)
        (earlier_session, Map.empty)) = earlier_session
   \<and> St_warning (py ''Please define at least one placeholder.'')
        \<in> set (effects (script example_env (example_inputs\<lparr>placeholders_text := py ''  ''\<rparr>)
             (earlier_session, Map.empty)))"
proof -
  let ?inp = "example_inputs\<lparr>placeholders_text := py ''  ''\<rparr>"
  have p: "placeholders_of (placeholders_text ?inp) = []"
    by (simp add: placeholders_of_def py_def strip_def lstrip_def rstrip_def is_space_def)
  have b: "extract_button ?inp" "uploaded_file ?inp \<noteq> None" "placeholders_text ?inp \<noteq> []"
    by (simp_all add: example_inputs_def py_def)
  show ?thesis
    using p b empty_field_list_starts_nothing[OF p, of example_env earlier_session Map.empty]
    by simp
qed

section \<open>The key of the cache\<close>

lemma cache_key_ignores_arguments:
  "cache_key [(''_image'', Arg_image img), (''_placeholders'', Arg_placeholders placeholders)] = []"
  by (simp add: cache_key_def)

lemma later_call_returns_cached_value:
  "fst (cached_analyze_document_with_gemini env
     (snd (snd (cached_analyze_document_with_gemini env cache img placeholders))) img' placeholders')
   = fst (cached_analyze_document_with_gemini env cache img placeholders)
   \<and> snd (snd (cached_analyze_document_with_gemini env
     (snd (snd (cached_analyze_document_with_gemini env cache img placeholders))) img' placeholders'))
   = snd (snd (cached_analyze_document_with_gemini env cache img placeholders))"
proof (cases "cache []")
  case None
  then show ?thesis
    by (simp add: cached_analyze_document_with_gemini_def cache_key_ignores_arguments
        split: prod.splits)
next
  case (Some entry)
  then show ?thesis
    by (cases entry)
       (simp add: cached_analyze_document_with_gemini_def cache_key_ignores_arguments)
qed

text \<open>
  C7, on the code. Both parameters of the helper have names that start with an
  underscore, so the key of its cache entry holds no argument. After a call with image 2
  and field A, a call with image 3 and field B does not reach the model and returns the
  result of the first call, where the body of the helper would have returned the reply
  for image 3.
\<close>

theorem different_inputs_share_the_cache_entry:
  \<open>cached_analyze_document_with_gemini two_replies_env Map.empty 2 [py ''A'']
     = (PDict [(py ''A'', PStr (py ''1''))], [Call_generate_content (prompt [py ''A'']) 2],
        [[] \<mapsto> (PDict [(py ''A'', PStr (py ''1''))], [])])
   \<and> analyze_document_with_gemini two_replies_env 3 [py ''B'']
     = (PDict [(py ''B'', PStr (py ''2''))], [Call_generate_content (prompt [py ''B'']) 3])
   \<and> cached_analyze_document_with_gemini two_replies_env
        [[] \<mapsto> (PDict [(py ''A'', PStr (py ''1''))], [])] 3 [py ''B'']
     = (PDict [(py ''A'', PStr (py ''1''))], [], [[] \<mapsto> (PDict [(py ''A'', PStr (py ''1''))], [])])\<close>
proof -
  have s: \<open>json_str (py ''{"A": "1"}'') = py ''{"A": "1"}''\<close> \<open>json_str (py ''{"B": "2"}'') = py ''{"B": "2"}''\<close>
    unfolding json_str_unstripped
    by (simp_all add: py_def replace_eval strip_def lstrip_def rstrip_def is_space_def)
  have l: \<open>json_loads 100 (py ''{"A": "1"}'') = Inr (PDict [(py ''A'', PStr (py ''1''))])\<close>
    \<open>json_loads 100 (py ''{"B": "2"}'') = Inr (PDict [(py ''B'', PStr (py ''2''))])\<close>
    by (simp_all add: json_eval)
  have a: \<open>analyze_document_with_gemini two_replies_env 2 [py ''A'']
     = (PDict [(py ''A'', PStr (py ''1''))], [Call_generate_content (prompt [py ''A'']) 2])\<close>
    \<open>analyze_document_with_gemini two_replies_env 3 [py ''B'']
     = (PDict [(py ''B'', PStr (py ''2''))], [Call_generate_content (prompt [py ''B'']) 3])\<close>
    by (simp_all add: analyze_document_with_gemini_def two_replies_env_def s l)
  show ?thesis
    by (simp add: a cached_analyze_document_with_gemini_def cache_key_def)
qed

end
